theory Spec2Isabelle
  imports Complex_Main "HOL-Library.Extended_Nat" "HOL-Library.Multiset"
begin

section \<open>Values of the run-time\<close>

text \<open>
  A row of a sheet is a \<^verbatim>\<open>Record<string, unknown>\<close> that express.json parsed from the
  request body, so the payload type of the whole development is a JSON value.
\<close>

datatype json =
    JNull
  | JBool bool
  | JNum rat
  | JStr string
  | JArr "json list"
  | JObj "(string \<times> json) list"

text \<open>JavaScript truthiness of a parsed JSON value (the operand of \<^verbatim>\<open>!x\<close>).\<close>

fun truthy :: "json \<Rightarrow> bool" where
  "truthy JNull = False"
| "truthy (JBool b) = b"
| "truthy (JNum q) = (q \<noteq> 0)"
| "truthy (JStr s) = (s \<noteq> [])"
| "truthy (JArr xs) = True"
| "truthy (JObj kvs) = True"

text \<open>
  A JavaScript \<^verbatim>\<open>number\<close> as far as the guards of the program look at it: not-a-number,
  the two infinities, or a finite value. Finite values are rationals, which contain every
  finite double; comparisons with the literal 1 are exact on them.
\<close>

datatype jsnum = NaN | PosInf | NegInf | Fin rat

fun isNaN :: "jsnum \<Rightarrow> bool" where
  "isNaN NaN = True"
| "isNaN _ = False"

text \<open>\<^verbatim>\<open>x < k\<close> for a finite right operand; every comparison with NaN is false.\<close>

fun js_less :: "jsnum \<Rightarrow> rat \<Rightarrow> bool" where
  "js_less NaN k = False"
| "js_less PosInf k = False"
| "js_less NegInf k = True"
| "js_less (Fin q) k = (q < k)"

fun is_integer :: "jsnum \<Rightarrow> bool" where
  "is_integer (Fin q) = (q = of_int \<lfloor>q\<rfloor>)"
| "is_integer _ = False"

text \<open>
  What a \<^verbatim>\<open>throw\<close> or a rejected promise carries: an \<^verbatim>\<open>AppError\<close> (message, statusCode),
  a plain \<^verbatim>\<open>Error\<close> (message), a string, or anything else.
\<close>

datatype thrown =
    AppError string nat
  | Error string
  | ThrownString string
  | ThrownOther

subsection \<open>utils/errors.ts\<close>

fun getErrorMessage :: "thrown \<Rightarrow> string" where
  "getErrorMessage (AppError m c) = m"
| "getErrorMessage (Error m) = m"
| "getErrorMessage (ThrownString s) = s"
| "getErrorMessage ThrownOther = ''An unknown error occurred''"

definition formatErrorMessage :: "string \<Rightarrow> string \<Rightarrow> string" where
  "formatErrorMessage operation details =
     (if details \<noteq> [] then operation @ '': '' @ details else operation)"

record response =
  status :: nat
  body :: json

definition createErrorResponse :: "string \<Rightarrow> string option \<Rightarrow> json" where
  "createErrorResponse err message =
     JObj [(''success'', JBool False), (''error'', JStr err),
           (''message'', JStr (case message of
                                 None \<Rightarrow> err
                               | Some m \<Rightarrow> (if m \<noteq> [] then m else err)))]"

definition createSuccessResponse :: "json option \<Rightarrow> string option \<Rightarrow> json" where
  "createSuccessResponse dat message =
     JObj ([(''success'', JBool True)]
           @ (case message of
                None \<Rightarrow> []
              | Some m \<Rightarrow> (if m \<noteq> [] then [(''message'', JStr m)] else []))
           @ (case dat of None \<Rightarrow> [] | Some d \<Rightarrow> [(''data'', d)]))"

definition sendErrorResponse :: "string \<Rightarrow> nat \<Rightarrow> string option \<Rightarrow> response" where
  "sendErrorResponse err statusCode message =
     \<lparr>status = statusCode, body = createErrorResponse err message\<rparr>"

definition sendSuccessResponse :: "json option \<Rightarrow> nat \<Rightarrow> string option \<Rightarrow> response" where
  "sendSuccessResponse dat statusCode message =
     \<lparr>status = statusCode, body = createSuccessResponse dat message\<rparr>"

subsection \<open>Numbers and text\<close>

text \<open>
  Decimal text of an integer, as a template literal or \<^verbatim>\<open>String(n)\<close> prints the integers
  this program handles (magnitude below \<^verbatim>\<open>1e21\<close>).
\<close>

definition digit_char :: "nat \<Rightarrow> char" where
  "digit_char d = char_of (48 + d)"

fun show_nat :: "nat \<Rightarrow> string" where
  "show_nat n = (if n < 10 then [digit_char n] else show_nat (n div 10) @ [digit_char (n mod 10)])"

declare show_nat.simps [simp del]

definition show_int :: "int \<Rightarrow> string" where
  "show_int i = (if i < 0 then CHR ''-'' # show_nat (nat (- i)) else show_nat (nat i))"

definition is_digit :: "char \<Rightarrow> bool" where
  "is_digit c = (48 \<le> (of_char c :: nat) \<and> (of_char c :: nat) \<le> 57)"

definition digit_val :: "char \<Rightarrow> nat" where
  "digit_val c = of_char c - 48"

text \<open>
  A text is the list of its UTF-8 bytes. \<open>white_prefix\<close> is the number of bytes of the white
  space or line terminator at the head of a text, 0 when there is none: TAB, LF, VT, FF, CR,
  SP, and, in their UTF-8 forms, U+00A0, U+1680, U+2000 to U+200A, U+2028, U+2029, U+202F,
  U+205F, U+3000 and U+FEFF. The byte A0 alone, which begins no character of a UTF-8 text, is
  taken as the one-unit form of the no-break space.
\<close>

definition white_prefix :: "string \<Rightarrow> nat" where
  "white_prefix s =
     (let bs = map of_char s :: nat list
      in if bs \<noteq> [] \<and> hd bs \<in> {9, 10, 11, 12, 13, 32, 160} then 1
         else if take 2 bs = [194, 160] then 2
         else if take 3 bs = [225, 154, 128] then 3
         else if take 2 bs = [226, 128] \<and> 3 \<le> length bs \<and>
                 (bs ! 2 \<in> {128..138} \<or> bs ! 2 \<in> {168, 169, 175}) then 3
         else if take 3 bs \<in> {[226, 129, 159], [227, 128, 128], [239, 187, 191]} then 3
         else 0)"

function skip_space :: "string \<Rightarrow> string" where
  "skip_space s = (if white_prefix s = 0 then s else skip_space (drop (white_prefix s) s))"
  by pat_completeness auto
termination
proof (relation "measure length", goal_cases)
  case 1
  show ?case by simp
next
  case (2 s)
  then have "s \<noteq> []"
    by (auto simp: white_prefix_def)
  with 2 show ?case by simp
qed

declare skip_space.simps [simp del]

definition digits_value :: "string \<Rightarrow> int" where
  "digits_value ds = foldl (\<lambda>acc c. acc * 10 + int (digit_val c)) 0 ds"

text \<open>
  The double nearest to an integer that is not negative, ties to the even significand, as an
  integer again; \<open>None\<close> is \<^verbatim>\<open>Infinity\<close>. Below \<^verbatim>\<open>2^53\<close> every such integer is a double. Above,
  with \<open>e\<close> the number of bits beyond 53, the doubles are the multiples of \<^verbatim>\<open>2^e\<close>, and a
  result of \<^verbatim>\<open>2^1024\<close> or more is beyond the largest double.
\<close>

function bit_length :: "int \<Rightarrow> nat" where
  "bit_length n = (if n \<le> 0 then 0 else Suc (bit_length (n div 2)))"
  by pat_completeness auto
termination
  by (relation "measure nat") auto

declare bit_length.simps [simp del]

definition nearest_double :: "int \<Rightarrow> int option" where
  "nearest_double n =
     (if n < 2 ^ 53 then Some n
      else
        (let e = bit_length n - 53;
             q = n div 2 ^ e;
             r = n mod 2 ^ e;
             half = 2 ^ (e - 1);
             m = (if half < r \<or> (r = half \<and> odd q) then q + 1 else q)
         in if 2 ^ 1024 \<le> m * 2 ^ e then None else Some (m * 2 ^ e)))"

text \<open>
  \<^verbatim>\<open>parseInt(s, 10)\<close>: skip leading white space, read an optional sign, then the longest
  run of decimal digits. No digit gives NaN; otherwise the result is the double nearest to
  the value of the digits (as Node.js computes it), with the sign. With radix 10 given there
  is no \<^verbatim>\<open>0x\<close> prefix handling. Minus zero is the finite value 0.
\<close>

definition parseInt :: "string \<Rightarrow> jsnum" where
  "parseInt s =
     (let t = skip_space s;
          neg = (t \<noteq> [] \<and> hd t = CHR ''-'');
          u = (if t \<noteq> [] \<and> (hd t = CHR ''-'' \<or> hd t = CHR ''+'') then tl t else t);
          ds = takeWhile is_digit u
      in if ds = [] then NaN
         else (case nearest_double (digits_value ds) of
                 None \<Rightarrow> (if neg then NegInf else PosInf)
               | Some m \<Rightarrow> Fin (if neg then - of_int m else of_int m)))"

section \<open>The data model\<close>

text \<open>
  db/schema.ts: a row to insert carries \<^verbatim>\<open>batchId\<close>, \<^verbatim>\<open>rowNumber\<close> and \<^verbatim>\<open>data\<close>; a stored row
  (\<^verbatim>\<open>SheetData\<close>) has the serial \<^verbatim>\<open>id\<close> and \<^verbatim>\<open>createdAt\<close> in addition. The field \<open>id'\<close> is the
  column \<^verbatim>\<open>id\<close>. The batch id of a row that the program hands to the store is a JavaScript
  number, whatever \<open>getNextBatchId\<close> returned; the batch id of a row that the store hands
  back is a value of the \<^verbatim>\<open>INTEGER\<close> column.
\<close>

record 'b NewSheetData =
  batchId :: 'b
  rowNumber :: nat
  data :: json

record SheetData = "int NewSheetData" +
  id' :: nat
  createdAt :: nat

text \<open>
  types/index.ts. \<open>rowNumber'\<close> and \<open>batchId'\<close> are the fields \<^verbatim>\<open>rowNumber\<close> of \<^verbatim>\<open>RowError\<close> and
  \<^verbatim>\<open>batchId\<close> of \<^verbatim>\<open>StoreSheetDataResult\<close>; \<open>rowData\<close> is \<open>None\<close> where JavaScript reads
  \<^verbatim>\<open>undefined\<close> from beyond the end of an array.
\<close>

record RowError =
  rowIndex :: nat
  rowNumber' :: nat
  rowData :: "json option"
  error :: string

record StoreSheetDataResult =
  success :: bool
  batchId' :: jsnum
  inserted :: nat
  errors :: "RowError list"

section \<open>The store seen from the program\<close>

text \<open>
  The program reaches PostgreSQL through four kinds of awaited calls. Each appears in the
  journal with its outcome (\<open>None\<close>: the promise resolved; \<open>Some e\<close>: it rejected with \<open>e\<close>).
  The journal is a ghost variable: the program never reads it.
\<close>

datatype stmt =
    InsertValues "jsnum NewSheetData list"
  | InsertValue "jsnum NewSheetData"
  | QueryNextBatchId string
  | SelectBatch jsnum

text \<open>
  A driver is any behaviour of the store and of the connection to it, over a state \<open>'s\<close> of
  its own: every call takes the state and returns the outcome and the next state. A resolved
  insert is a query result object, which is truthy. The rows of the next-batch-id query are
  given by the text of their \<^verbatim>\<open>next_batch_id\<close> column, which is what \<^verbatim>\<open>parseInt\<close> reads.
\<close>

record 's driver =
  insert_many :: "'s \<Rightarrow> jsnum NewSheetData list \<Rightarrow> thrown option \<times> 's"
  insert_one :: "'s \<Rightarrow> jsnum NewSheetData \<Rightarrow> thrown option \<times> 's"
  next_batch_id_query :: "'s \<Rightarrow> string \<Rightarrow> (thrown + string list) \<times> 's"
  batch_query :: "'s \<Rightarrow> jsnum \<Rightarrow> (thrown + SheetData list) \<times> 's"

record 's world =
  journal :: "(stmt \<times> thrown option) list"
  store :: 's

definition outcome_of :: "thrown + 'a \<Rightarrow> thrown option" where
  "outcome_of r = (case r of Inl e \<Rightarrow> Some e | Inr x \<Rightarrow> None)"

text \<open>
  \<^verbatim>\<open>db.insert(sheetData).values(rows)\<close> with an array argument. The query builder throws at
  once, before any promise exists, when the array is empty; that exception is the \<open>Inl\<close>
  result and no \<^verbatim>\<open>.catch\<close> handler sees it. Otherwise the statement goes to the store and the
  result is the outcome the \<^verbatim>\<open>.catch\<close> handler is attached to.
\<close>

definition values_many ::
  "'s driver \<Rightarrow> jsnum NewSheetData list \<Rightarrow> 's world \<Rightarrow> (thrown + thrown option) \<times> 's world" where
  "values_many db rows w =
     (if rows = [] then (Inl (Error ''values() must be called with at least one value''), w)
      else (case insert_many db (store w) rows of
              (r, s') \<Rightarrow> (Inr r, \<lparr>journal = journal w @ [(InsertValues rows, r)], store = s'\<rparr>)))"

text \<open>\<^verbatim>\<open>db.insert(sheetData).values(row)\<close> with a single row object.\<close>

definition values_one ::
  "'s driver \<Rightarrow> jsnum NewSheetData \<Rightarrow> 's world \<Rightarrow> thrown option \<times> 's world" where
  "values_one db row w =
     (case insert_one db (store w) row of
        (r, s') \<Rightarrow> (r, \<lparr>journal = journal w @ [(InsertValue row, r)], store = s'\<rparr>))"

definition run_next_batch_id_query ::
  "'s driver \<Rightarrow> string \<Rightarrow> 's world \<Rightarrow> (thrown + string list) \<times> 's world" where
  "run_next_batch_id_query db tableName w =
     (case next_batch_id_query db (store w) tableName of
        (r, s') \<Rightarrow>
          (r, \<lparr>journal = journal w @ [(QueryNextBatchId tableName, outcome_of r)], store = s'\<rparr>))"

definition run_batch_query ::
  "'s driver \<Rightarrow> jsnum \<Rightarrow> 's world \<Rightarrow> (thrown + SheetData list) \<times> 's world" where
  "run_batch_query db b w =
     (case batch_query db (store w) b of
        (r, s') \<Rightarrow> (r, \<lparr>journal = journal w @ [(SelectBatch b, outcome_of r)], store = s'\<rparr>))"

section \<open>db/index.ts\<close>

subsection \<open>getNextBatchId\<close>

definition getNextBatchId ::
  "'s driver \<Rightarrow> string \<Rightarrow> 's world \<Rightarrow> (thrown + jsnum) \<times> 's world" where
  "getNextBatchId db tableName w =
     (case run_next_batch_id_query db tableName w of
        (Inl e, w') \<Rightarrow>
          (Inl (AppError (formatErrorMessage ''Failed to get next batch ID'' (getErrorMessage e)) 500), w')
      | (Inr [], w') \<Rightarrow> (Inl (AppError ''Failed to retrieve batch ID from database'' 500), w')
      | (Inr (row0 # others), w') \<Rightarrow>
          (let bid = parseInt row0
           in if isNaN bid then
                (Inl (AppError ''Invalid batch ID returned from database'' 500), w')
              else (Inr bid, w')))"

subsection \<open>insertRowsInChunks\<close>

text \<open>\<^verbatim>\<open>xs[i]\<close>, which is \<^verbatim>\<open>undefined\<close> beyond the end.\<close>

definition elem_at :: "'a list \<Rightarrow> nat \<Rightarrow> 'a option" where
  "elem_at xs i = (if i < length xs then Some (xs ! i) else None)"

text \<open>\<^verbatim>\<open>xs.slice(start, end)\<close> for indices that are not negative.\<close>

definition slice :: "'a list \<Rightarrow> nat \<Rightarrow> nat \<Rightarrow> 'a list" where
  "slice xs start end' = take (end' - start) (drop start xs)"

text \<open>
  \<^verbatim>\<open>Math.ceil(n / chunkSize)\<close> on array lengths: \<^verbatim>\<open>Infinity\<close> when only the divisor is zero and
  NaN (\<open>None\<close>) for 0 / 0.
\<close>

definition ceil_div :: "nat \<Rightarrow> nat \<Rightarrow> enat option" where
  "ceil_div n c =
     (if c = 0 then (if n = 0 then None else Some \<infinity>)
      else Some (enat ((n + c - 1) div c)))"

text \<open>\<^verbatim>\<open>chunkIndex < totalChunks\<close>; false when \<^verbatim>\<open>totalChunks\<close> is NaN.\<close>

definition index_below :: "nat \<Rightarrow> enat option \<Rightarrow> bool" where
  "index_below i t = (case t of None \<Rightarrow> False | Some m \<Rightarrow> enat i < m)"

text \<open>
  The inner loop \<^verbatim>\<open>for (let i = start; i < end; i++)\<close>: one insert per row; a rejection
  pushes one \<^verbatim>\<open>RowError\<close>, a resolved insert counts one row. The loop is entered with
  \<open>end' \<le> length insertData\<close> only, since \<^verbatim>\<open>end\<close> is a minimum with that length.
\<close>

function row_loop ::
  "'s driver \<Rightarrow> jsnum NewSheetData list \<Rightarrow> json list \<Rightarrow> nat \<Rightarrow> nat \<Rightarrow> nat \<Rightarrow> RowError list
     \<Rightarrow> 's world \<Rightarrow> (nat \<times> RowError list) \<times> 's world" where
  "row_loop db insertData sheetDataArray i end' insertedCount errs w =
     (if i < end' then
        (case values_one db (insertData ! i) w of
           (Some rowError, w') \<Rightarrow>
             row_loop db insertData sheetDataArray (i + 1) end' insertedCount
               (errs @ [\<lparr>rowIndex = i, rowNumber' = i + 1, rowData = elem_at sheetDataArray i,
                         error = getErrorMessage rowError\<rparr>]) w'
         | (None, w') \<Rightarrow>
             row_loop db insertData sheetDataArray (i + 1) end' (insertedCount + 1) errs w')
      else ((insertedCount, errs), w))"
  by pat_completeness auto
termination
  by (relation "measure (\<lambda>(db, insertData, sheetDataArray, i, end', insertedCount, errs, w). end' - i)")
     auto

declare row_loop.simps [simp del]

text \<open>
  The outer loop \<^verbatim>\<open>for (let chunkIndex = 0; chunkIndex < totalChunks; chunkIndex++)\<close>.
\<close>

function chunk_loop ::
  "'s driver \<Rightarrow> jsnum NewSheetData list \<Rightarrow> json list \<Rightarrow> nat \<Rightarrow> enat option \<Rightarrow> nat \<Rightarrow> nat
     \<Rightarrow> RowError list \<Rightarrow> 's world \<Rightarrow> (thrown + nat \<times> RowError list) \<times> 's world" where
  "chunk_loop db insertData sheetDataArray chunkSize totalChunks chunkIndex insertedCount errs w =
     (if index_below chunkIndex totalChunks then
        (let start = chunkIndex * chunkSize;
             end' = min (start + chunkSize) (length insertData);
             chunk = slice insertData start end'
         in (case values_many db chunk w of
               (Inl e, w1) \<Rightarrow> (Inl e, w1)
             | (Inr None, w1) \<Rightarrow>
                 chunk_loop db insertData sheetDataArray chunkSize totalChunks (chunkIndex + 1)
                   (insertedCount + length chunk) errs w1
             | (Inr (Some chunkError), w1) \<Rightarrow>
                 (case row_loop db insertData sheetDataArray start end' insertedCount errs w1 of
                    ((insertedCount', errs'), w2) \<Rightarrow>
                      chunk_loop db insertData sheetDataArray chunkSize totalChunks (chunkIndex + 1)
                        insertedCount' errs' w2)))
      else (Inr (insertedCount, errs), w))"
  by pat_completeness auto
termination
proof (relation "measure (\<lambda>(db, insertData, sheetDataArray, chunkSize, totalChunks, chunkIndex,
                           insertedCount, errs, w). length insertData - chunkIndex * chunkSize)",
       goal_cases)
  case 1
  show ?case by simp
next
  case (2 db insertData sheetDataArray chunkSize totalChunks chunkIndex insertedCount errs w
          start end' chunk res w1)
  then have "chunk \<noteq> []"
    by (auto simp: values_many_def split: if_splits)
  with 2 have "chunkIndex * chunkSize < length insertData" and "0 < chunkSize"
    by (auto simp: slice_def intro: gr0I)
  then show ?case by simp
next
  case (3 db insertData sheetDataArray chunkSize totalChunks chunkIndex insertedCount errs w
          start end' chunk res w1 r chunkError)
  then have "chunk \<noteq> []"
    by (auto simp: values_many_def split: if_splits)
  with 3 have "chunkIndex * chunkSize < length insertData" and "0 < chunkSize"
    by (auto simp: slice_def intro: gr0I)
  then show ?case by simp
qed

declare chunk_loop.simps [simp del]

definition insertRowsInChunks ::
  "'s driver \<Rightarrow> jsnum NewSheetData list \<Rightarrow> json list \<Rightarrow> nat \<Rightarrow> 's world
     \<Rightarrow> (thrown + nat \<times> RowError list) \<times> 's world" where
  "insertRowsInChunks db insertData sheetDataArray chunkSize w =
     chunk_loop db insertData sheetDataArray chunkSize
       (ceil_div (length insertData) chunkSize) 0 0 [] w"

subsection \<open>storeSheetData\<close>

definition CHUNK_SIZE :: nat where
  "CHUNK_SIZE = 5000"

text \<open>
  \<^verbatim>\<open>sheetDataArray.map((row, index) => ({ batchId, rowNumber: index + 1, data: row }))\<close>
\<close>

definition tag_rows :: "jsnum \<Rightarrow> json list \<Rightarrow> jsnum NewSheetData list" where
  "tag_rows bid rows =
     map (\<lambda>(index, row). \<lparr>batchId = bid, rowNumber = index + 1, data = row\<rparr>) (List.enumerate 0 rows)"

text \<open>
  The argument is whatever value the caller passes at run time: \<open>None\<close> is \<^verbatim>\<open>undefined\<close>.
\<close>

fun storeSheetData ::
  "'s driver \<Rightarrow> json option \<Rightarrow> string \<Rightarrow> 's world
     \<Rightarrow> (thrown + StoreSheetDataResult) \<times> 's world" where
  "storeSheetData db (Some (JArr sheetDataArray)) tableName w =
     (if length sheetDataArray = 0 then (Inl (AppError ''sheetData array cannot be empty'' 400), w)
      else
        (case getNextBatchId db tableName w of
           (Inl e, w1) \<Rightarrow> (Inl e, w1)
         | (Inr bid, w1) \<Rightarrow>
             (let totalRows = length sheetDataArray;
                  insertData = tag_rows bid sheetDataArray;
                  useChunkedInserts = (totalRows > 10000)
              in if useChunkedInserts then
                   (case insertRowsInChunks db insertData sheetDataArray CHUNK_SIZE w1 of
                      (Inl e, w2) \<Rightarrow> (Inl e, w2)
                    | (Inr (n, errs), w2) \<Rightarrow>
                        (Inr \<lparr>success = True, batchId' = bid, inserted = n, errors = errs\<rparr>, w2))
                 else
                   (case values_many db insertData w1 of
                      (Inl e, w2) \<Rightarrow> (Inl e, w2)
                    | (Inr None, w2) \<Rightarrow>
                        (Inr \<lparr>success = True, batchId' = bid, inserted = totalRows, errors = []\<rparr>,
                         w2)
                    | (Inr (Some insertError), w2) \<Rightarrow>
                        (case insertRowsInChunks db insertData sheetDataArray CHUNK_SIZE w2 of
                           (Inl e, w3) \<Rightarrow> (Inl e, w3)
                         | (Inr (n, errs), w3) \<Rightarrow>
                             (Inr \<lparr>success = True, batchId' = bid, inserted = n, errors = errs\<rparr>,
                              w3))))))"
| "storeSheetData db other tableName w = (Inl (AppError ''sheetData must be an array'' 400), w)"

subsection \<open>fetchBatchData\<close>

text \<open>
  The text of a number inside a template literal. It is the text JavaScript prints for NaN,
  the infinities, integers of magnitude below \<^verbatim>\<open>1e21\<close>, and those fractions of magnitude
  at least \<^verbatim>\<open>1e-6\<close> whose decimal expansion ends within 15 significant digits (1.5, 0.25);
  for other fractions JavaScript prints the shortest digits that read back as the same
  double, and for an integer from \<^verbatim>\<open>1e21\<close> on it prints an exponent; this reproduces neither.
\<close>

fun frac_digits :: "nat \<Rightarrow> rat \<Rightarrow> string" where
  "frac_digits 0 r = []"
| "frac_digits (Suc k) r =
     (if r = 0 then []
      else digit_char (nat \<lfloor>r * 10\<rfloor>) # frac_digits k (r * 10 - of_int \<lfloor>r * 10\<rfloor>))"

fun number_text :: "jsnum \<Rightarrow> string" where
  "number_text NaN = ''NaN''"
| "number_text PosInf = ''Infinity''"
| "number_text NegInf = ''-Infinity''"
| "number_text (Fin q) =
     (if q = of_int \<lfloor>q\<rfloor> then show_int \<lfloor>q\<rfloor>
      else (if q < 0 then ''-'' else []) @ show_nat (nat \<lfloor>\<bar>q\<bar>\<rfloor>) @ ''.''
           @ frac_digits 20 (\<bar>q\<bar> - of_int \<lfloor>\<bar>q\<bar>\<rfloor>))"

definition fetchBatchData ::
  "'s driver \<Rightarrow> jsnum \<Rightarrow> 's world \<Rightarrow> (thrown + SheetData list) \<times> 's world" where
  "fetchBatchData db bid w =
     (if isNaN bid \<or> js_less bid 1 then
        (Inl (AppError (''Invalid batchId: '' @ number_text bid @ ''. Must be a positive number.'')
                400), w)
      else
        (case run_batch_query db bid w of
           (Inl e, w') \<Rightarrow>
             (Inl (AppError (formatErrorMessage ''Failed to fetch batch data'' (getErrorMessage e))
                     500), w')
         | (Inr rows, w') \<Rightarrow> (Inr rows, w')))"

section \<open>index.ts: the two route handlers\<close>

text \<open>
  A handler either sends a response or throws; what it throws reaches the error middleware,
  which is outside this development. \<^verbatim>\<open>JSON.stringify\<close> leaves out a key whose value is
  \<^verbatim>\<open>undefined\<close>.
\<close>

text \<open>\<^verbatim>\<open>JSON.stringify\<close> prints a number that is not finite as \<^verbatim>\<open>null\<close>.\<close>

fun number_json :: "jsnum \<Rightarrow> json" where
  "number_json (Fin q) = JNum q"
| "number_json other = JNull"

definition RowError_json :: "RowError \<Rightarrow> json" where
  "RowError_json e =
     JObj ([(''rowIndex'', JNum (of_nat (rowIndex e))),
            (''rowNumber'', JNum (of_nat (rowNumber' e)))]
           @ (case rowData e of None \<Rightarrow> [] | Some d \<Rightarrow> [(''rowData'', d)])
           @ [(''error'', JStr (error e))])"

text \<open>The time stamp of a stored row is printed as a number here, not as a date text.\<close>

definition SheetData_json :: "SheetData \<Rightarrow> json" where
  "SheetData_json r =
     JObj [(''id'', JNum (of_nat (id' r))), (''batchId'', JNum (of_int (batchId r))),
           (''rowNumber'', JNum (of_nat (rowNumber r))), (''data'', data r),
           (''createdAt'', JNum (of_nat (createdAt r)))]"

text \<open>
  \<^verbatim>\<open>POST /api/upload-sheet-data\<close>; the argument is the member \<^verbatim>\<open>sheetData\<close> of the parsed
  request body, \<open>None\<close> when the body has none.
\<close>

definition upload_sheet_data ::
  "'s driver \<Rightarrow> json option \<Rightarrow> 's world \<Rightarrow> (thrown + response) \<times> 's world" where
  "upload_sheet_data db sheetData w =
     (case sheetData of
        None \<Rightarrow> (Inr (sendErrorResponse ''No sheetData provided in the request body'' 400 None), w)
      | Some v \<Rightarrow>
          if \<not> truthy v then
            (Inr (sendErrorResponse ''No sheetData provided in the request body'' 400 None), w)
          else
            (case v of
               JArr rows \<Rightarrow>
                 if length rows = 0 then
                   (Inr (sendErrorResponse ''sheetData array cannot be empty'' 400 None), w)
                 else
                   (case storeSheetData db sheetData ''sheet_data'' w of
                      (Inl e, w') \<Rightarrow> (Inl e, w')
                    | (Inr result, w') \<Rightarrow>
                        if length (errors result) > 0 then
                          (Inr (sendSuccessResponse
                                  (Some (JObj [(''batchId'', number_json (batchId' result)),
                                               (''inserted'', JNum (of_nat (inserted result))),
                                               (''errors'', JArr (map RowError_json (errors result)))]))
                                  207
                                  (Some (''Data stored with '' @ show_nat (length (errors result))
                                         @ '' errors''))), w')
                        else
                          (Inr (sendSuccessResponse
                                  (Some (JObj [(''batchId'', number_json (batchId' result)),
                                               (''inserted'', JNum (of_nat (inserted result)))]))
                                  200
                                  (Some (''Successfully stored '' @ show_nat (inserted result)
                                         @ '' rows to database''))), w'))
             | _ \<Rightarrow> (Inr (sendErrorResponse ''sheetData must be an array'' 400 None), w)))"

text \<open>\<^verbatim>\<open>GET /api/batch/:batchId\<close>; the argument is the text of the route parameter.\<close>

definition get_batch ::
  "'s driver \<Rightarrow> string \<Rightarrow> 's world \<Rightarrow> (thrown + response) \<times> 's world" where
  "get_batch db batchIdParam w =
     (let bid = parseInt batchIdParam
      in if isNaN bid \<or> js_less bid 1 then
           (Inr (sendErrorResponse
                   (''Invalid batchId: '' @ batchIdParam @ ''. Must be a positive number.'') 400
                   None), w)
         else
           (case fetchBatchData db bid w of
              (Inl e, w') \<Rightarrow> (Inl e, w')
            | (Inr rows, w') \<Rightarrow>
                if length rows = 0 then
                  (Inr (sendErrorResponse (''No data found for batch_id: '' @ number_text bid) 404
                          None), w')
                else
                  (Inr (sendSuccessResponse
                          (Some (JObj [(''batchId'', number_json bid),
                                       (''count'', JNum (of_nat (length rows))),
                                       (''data'', JArr (map SheetData_json rows))]))
                          200 None), w')))"

section \<open>The relation \<^verbatim>\<open>sheet_data\<close>\<close>

text \<open>
  One driver in particular: the relation that \<^verbatim>\<open>initializeSchema\<close> creates, with its serial
  \<^verbatim>\<open>id\<close>, its 32-bit \<^verbatim>\<open>INTEGER\<close> columns and the constraint \<^verbatim>\<open>UNIQUE (batch_id, row_number)\<close>.
  Every statement is atomic. \<open>outages\<close> is the fate of the connection: the head tells whether
  the next statement is lost before it reaches the relation, and each statement consumes it.
  The clock stands for \<^verbatim>\<open>CURRENT_TIMESTAMP\<close>. A statement that fails leaves the relation and
  the serial as they were.
\<close>

record pg_state =
  sheet_data :: "SheetData list"
  next_serial :: nat
  clock :: nat
  outages :: "bool list"

definition int4 :: "int \<Rightarrow> bool" where
  "int4 i = (- 2147483648 \<le> i \<and> i \<le> 2147483647)"

definition connection_lost :: "pg_state \<Rightarrow> bool" where
  "connection_lost s = (case outages s of [] \<Rightarrow> False | lost # later \<Rightarrow> lost)"

definition statement_done :: "pg_state \<Rightarrow> pg_state" where
  "statement_done s = s\<lparr>clock := clock s + 1, outages := tl (outages s)\<rparr>"

definition unique_batch_row :: "('b, 'a) NewSheetData_scheme \<Rightarrow> 'b \<times> nat" where
  "unique_batch_row r = (batchId r, rowNumber r)"

text \<open>
  A number that is a value of an \<^verbatim>\<open>INTEGER\<close> column, and that value. A row to insert whose
  batch id is no such number is rejected; the others are stored with that value.
\<close>

fun int4_number :: "jsnum \<Rightarrow> bool" where
  "int4_number (Fin q) = (q = of_int \<lfloor>q\<rfloor> \<and> int4 \<lfloor>q\<rfloor>)"
| "int4_number other = False"

fun column_value :: "jsnum \<Rightarrow> int" where
  "column_value (Fin q) = \<lfloor>q\<rfloor>"
| "column_value other = 0"

definition typed :: "jsnum NewSheetData list \<Rightarrow> int NewSheetData list" where
  "typed rows =
     map (\<lambda>r. \<lparr>batchId = column_value (batchId r), rowNumber = rowNumber r, data = data r\<rparr>) rows"

definition stored :: "nat \<Rightarrow> nat \<Rightarrow> int NewSheetData list \<Rightarrow> SheetData list" where
  "stored serial now rows =
     map (\<lambda>(k, r). \<lparr>batchId = batchId r, rowNumber = rowNumber r, data = data r,
                     id' = serial + k, createdAt = now\<rparr>) (List.enumerate 0 rows)"

definition pg_insert :: "pg_state \<Rightarrow> jsnum NewSheetData list \<Rightarrow> thrown option \<times> pg_state" where
  "pg_insert s rows =
     (if connection_lost s then
        (Some (Error ''Connection terminated unexpectedly''), statement_done s)
      else if \<not> (\<forall>r \<in> set rows. int4_number (batchId r) \<and> int4 (int (rowNumber r))) then
        (Some (Error ''integer out of range''), statement_done s)
      else if \<not> (distinct (map unique_batch_row (typed rows))
                 \<and> (\<forall>r \<in> set (typed rows).
                       unique_batch_row r \<notin> set (map unique_batch_row (sheet_data s))))
      then
        (Some (Error ''duplicate key value violates unique constraint unique_batch_row''),
         statement_done s)
      else
        (None, statement_done
                 (s\<lparr>sheet_data := sheet_data s @ stored (next_serial s) (clock s) (typed rows),
                    next_serial := next_serial s + length rows\<rparr>)))"

text \<open>The aggregate \<^verbatim>\<open>MAX\<close>, which is \<^verbatim>\<open>NULL\<close> over no rows.\<close>

fun sql_max :: "int list \<Rightarrow> int option" where
  "sql_max [] = None"
| "sql_max (x # xs) = Some (fold max xs x)"

text \<open>\<^verbatim>\<open>COALESCE(MAX(batch_id), 0) + 1\<close> over the rows of a relation.\<close>

definition next_batch_id_of :: "SheetData list \<Rightarrow> int" where
  "next_batch_id_of tbl = (case sql_max (map batchId tbl) of None \<Rightarrow> 0 | Some m \<Rightarrow> m) + 1"

text \<open>
  \<^verbatim>\<open>SELECT COALESCE(MAX(batch_id), 0) + 1 AS next_batch_id FROM ${tableName}\<close>: one row,
  whose column the driver hands over as a number; the text is what \<^verbatim>\<open>parseInt\<close> makes of it.
\<close>

definition pg_next_batch_id :: "pg_state \<Rightarrow> string \<Rightarrow> (thrown + string list) \<times> pg_state" where
  "pg_next_batch_id s tableName =
     (if connection_lost s then
        (Inl (Error ''Connection terminated unexpectedly''), statement_done s)
      else if tableName \<noteq> ''sheet_data'' then
        (Inl (Error ''relation does not exist''), statement_done s)
      else
        (let next_batch_id = next_batch_id_of (sheet_data s)
         in if \<not> int4 next_batch_id then (Inl (Error ''integer out of range''), statement_done s)
            else (Inr [show_int next_batch_id], statement_done s)))"

text \<open>
  \<^verbatim>\<open>SELECT ... FROM sheet_data WHERE batch_id = $1 ORDER BY row_number ASC\<close>. A parameter
  that is not a 32-bit integer is not a value of the column's type.
\<close>

definition pg_select_batch :: "pg_state \<Rightarrow> jsnum \<Rightarrow> (thrown + SheetData list) \<times> pg_state" where
  "pg_select_batch s b =
     (if connection_lost s then
        (Inl (Error ''Connection terminated unexpectedly''), statement_done s)
      else
        (case b of
           Fin q \<Rightarrow>
             if q = of_int \<lfloor>q\<rfloor> \<and> int4 \<lfloor>q\<rfloor> then
               (Inr (sort_key rowNumber (filter (\<lambda>r. batchId r = \<lfloor>q\<rfloor>) (sheet_data s))),
                statement_done s)
             else (Inl (Error ''invalid input syntax for type integer''), statement_done s)
         | _ \<Rightarrow> (Inl (Error ''invalid input syntax for type integer''), statement_done s)))"

definition pg :: "pg_state driver" where
  "pg = \<lparr>insert_many = pg_insert,
         insert_one = (\<lambda>s row. pg_insert s [row]),
         next_batch_id_query = pg_next_batch_id,
         batch_query = pg_select_batch\<rparr>"

definition empty_store :: "bool list \<Rightarrow> pg_state world" where
  "empty_store fate =
     \<lparr>journal = [], store = \<lparr>sheet_data = [], next_serial = 1, clock = 0, outages = fate\<rparr>\<rparr>"

section \<open>Reading the journal\<close>

text \<open>
  What a run added to the journal, and what its entries amount to: the rows an entry puts
  in the store (a resolved bulk or chunk insert puts all its rows, a resolved single insert
  one), and the single inserts that were rejected.
\<close>

definition new_entries :: "'s world \<Rightarrow> 's world \<Rightarrow> (stmt \<times> thrown option) list" where
  "new_entries w w' = drop (length (journal w)) (journal w')"

fun credited_entry :: "stmt \<times> thrown option \<Rightarrow> nat" where
  "credited_entry (InsertValues rows, None) = length rows"
| "credited_entry (InsertValue row, None) = 1"
| "credited_entry other = 0"

definition credited :: "(stmt \<times> thrown option) list \<Rightarrow> nat" where
  "credited J = sum_list (map credited_entry J)"

fun rejected_row :: "stmt \<times> thrown option \<Rightarrow> bool" where
  "rejected_row (InsertValue row, Some e) = True"
| "rejected_row other = False"

definition rejected_rows :: "(stmt \<times> thrown option) list \<Rightarrow> nat" where
  "rejected_rows J = length (filter rejected_row J)"

fun is_insert :: "stmt \<Rightarrow> bool" where
  "is_insert (InsertValues rows) = True"
| "is_insert (InsertValue row) = True"
| "is_insert other = False"

fun is_single_insert :: "stmt \<Rightarrow> bool" where
  "is_single_insert (InsertValue row) = True"
| "is_single_insert other = False"

text \<open>
  The partition of the rows into contiguous chunks of a fixed size, the last one shorter when
  the size does not divide the number of rows.
\<close>

function chunks_of :: "nat \<Rightarrow> 'a list \<Rightarrow> 'a list list" where
  "chunks_of c xs = (if c = 0 \<or> xs = [] then [] else take c xs # chunks_of c (drop c xs))"
  by pat_completeness auto
termination
  by (relation "measure (\<lambda>(c, xs). length xs)") auto

declare chunks_of.simps [simp del]

text \<open>
  A journal follows the chunked protocol for a list of chunks when it is, chunk after chunk
  in order, one insert of the whole chunk, followed, only when that insert was rejected, by
  one single insert for each row of that chunk in order.
\<close>

fun chunk_script :: "jsnum NewSheetData list list \<Rightarrow> (stmt \<times> thrown option) list \<Rightarrow> bool" where
  "chunk_script [] J = (J = [])"
| "chunk_script (chunk # chunks) [] = False"
| "chunk_script (chunk # chunks) ((st, out) # J) =
     (st = InsertValues chunk \<and>
      (case out of
         None \<Rightarrow> chunk_script chunks J
       | Some e \<Rightarrow>
           map fst (take (length chunk) J) = map InsertValue chunk \<and>
           chunk_script chunks (drop (length chunk) J)))"

text \<open>The rows an insert statement carries.\<close>

fun stmt_rows :: "stmt \<Rightarrow> jsnum NewSheetData list option" where
  "stmt_rows (InsertValues rows) = Some rows"
| "stmt_rows (InsertValue row) = Some [row]"
| "stmt_rows other = None"

text \<open>
  A journal is faithful to a driver between two of its states when running the journal's
  statements in order from the first state gives the journal's outcomes and ends in the
  second state.
\<close>

fun faithful :: "'s driver \<Rightarrow> 's \<Rightarrow> (stmt \<times> thrown option) list \<Rightarrow> 's \<Rightarrow> bool" where
  "faithful db s [] s' = (s' = s)"
| "faithful db s ((InsertValues rows, out) # J) s' =
     (fst (insert_many db s rows) = out \<and> faithful db (snd (insert_many db s rows)) J s')"
| "faithful db s ((InsertValue row, out) # J) s' =
     (fst (insert_one db s row) = out \<and> faithful db (snd (insert_one db s row)) J s')"
| "faithful db s ((QueryNextBatchId tableName, out) # J) s' =
     (outcome_of (fst (next_batch_id_query db s tableName)) = out \<and>
      faithful db (snd (next_batch_id_query db s tableName)) J s')"
| "faithful db s ((SelectBatch b, out) # J) s' =
     (outcome_of (fst (batch_query db s b)) = out \<and> faithful db (snd (batch_query db s b)) J s')"

text \<open>
  The error entries for the rows between two indices: in increasing order of row index, each
  with the 1-indexed row number and the payload of its own row.
\<close>

definition rows_report :: "json list \<Rightarrow> nat \<Rightarrow> nat \<Rightarrow> RowError list \<Rightarrow> bool" where
  "rows_report S lo hi new =
     (sorted_wrt (<) (map rowIndex new) \<and>
      (\<forall>x \<in> set new. lo \<le> rowIndex x \<and> rowIndex x < hi \<and> rowNumber' x = rowIndex x + 1 \<and>
                       rowData x = elem_at S (rowIndex x)))"

section \<open>Reading a response\<close>

text \<open>Reading a JSON object: the value of a member, and the keys in order.\<close>

fun member_of :: "json \<Rightarrow> string \<Rightarrow> json option" where
  "member_of (JObj kvs) k = map_of kvs k"
| "member_of other k = None"

fun keys_of :: "json \<Rightarrow> string list" where
  "keys_of (JObj kvs) = map fst kvs"
| "keys_of other = []"

section \<open>Concrete runs\<close>

text \<open>
  Three rows \<^verbatim>\<open>[{"a":1},{"a":2},{"a":3}]\<close> uploaded to the empty relation, under different
  fates of the connection.
\<close>

definition three_rows :: "json list" where
  "three_rows = [JObj [(''a'', JNum 1)], JObj [(''a'', JNum 2)], JObj [(''a'', JNum 3)]]"

text \<open>
  A driver that accepts every insert and always answers 1 to the next-batch-id query; it
  has no state.
\<close>

definition agreeable :: "unit driver" where
  "agreeable = \<lparr>insert_many = (\<lambda>s rows. (None, s)),
                insert_one = (\<lambda>s row. (None, s)),
                next_batch_id_query = (\<lambda>s tableName. (Inr [''1''], s)),
                batch_query = (\<lambda>s b. (Inr [], s))\<rparr>"

text \<open>
  A relation in which arrival order and row numbers disagree: row 2 of batch 1 arrived first
  (serial 1), then a row of batch 2, then row 1 of batch 1 (serial 3). The second relation
  holds the same rows in the opposite order.
\<close>

definition out_of_order :: "SheetData list" where
  "out_of_order =
     [\<lparr>batchId = 1, rowNumber = 2, data = JStr ''second'', id' = 1, createdAt = 0\<rparr>,
      \<lparr>batchId = 2, rowNumber = 1, data = JStr ''other'', id' = 2, createdAt = 1\<rparr>,
      \<lparr>batchId = 1, rowNumber = 1, data = JStr ''first'', id' = 3, createdAt = 2\<rparr>]"

definition relation_of :: "SheetData list \<Rightarrow> pg_state world" where
  "relation_of tbl =
     \<lparr>journal = [], store = \<lparr>sheet_data = tbl, next_serial = 4, clock = 3, outages = []\<rparr>\<rparr>"

section \<open>The loops\<close>

lemma index_below_ceil_div:
  assumes "0 < c"
  shows "index_below k (ceil_div n c) \<longleftrightarrow> k * c < n"
proof -
  have "k < (n + c - 1) div c \<longleftrightarrow> Suc k * c \<le> n + c - 1"
    using assms by (simp add: Suc_le_eq [symmetric] less_eq_div_iff_mult_less_eq del: mult_Suc)
  also have "\<dots> \<longleftrightarrow> k * c < n"
    using assms by (cases n) auto
  finally show ?thesis
    using assms by (simp add: index_below_def ceil_div_def)
qed

lemma credited_simps [simp]:
  "credited [] = 0"
  "credited (x # J) = credited_entry x + credited J"
  "credited (J @ J') = credited J + credited J'"
  by (simp_all add: credited_def)

lemma rejected_rows_simps [simp]:
  "rejected_rows [] = 0"
  "rejected_rows (x # J) = (if rejected_row x then 1 else 0) + rejected_rows J"
  "rejected_rows (J @ J') = rejected_rows J + rejected_rows J'"
  by (simp_all add: rejected_rows_def)

lemma rows_report_Nil [simp]: "rows_report S lo hi []"
  by (simp add: rows_report_def)

lemma rows_report_Cons:
  assumes "rows_report S (Suc i) hi new" and "i < hi"
  shows "rows_report S i hi
           (\<lparr>rowIndex = i, rowNumber' = Suc i, rowData = elem_at S i, error = m\<rparr> # new)"
  using assms by (auto simp: rows_report_def)

lemma rows_report_widen:
  "rows_report S lo hi new \<Longrightarrow> lo' \<le> lo \<Longrightarrow> hi \<le> hi' \<Longrightarrow> rows_report S lo' hi' new"
  by (fastforce simp: rows_report_def)

lemma rows_report_append:
  "rows_report S lo mid xs \<Longrightarrow> rows_report S mid hi ys \<Longrightarrow> lo \<le> mid \<Longrightarrow> mid \<le> hi
     \<Longrightarrow> rows_report S lo hi (xs @ ys)"
  by (fastforce simp: rows_report_def sorted_wrt_append)

lemma faithful_append:
  "faithful db s J1 s1 \<Longrightarrow> faithful db s1 J2 s2 \<Longrightarrow> faithful db s (J1 @ J2) s2"
  by (induction db s J1 s1 rule: faithful.induct) auto

text \<open>
  One run of the inner loop: it issues one single insert per index, credits the resolved
  ones, and reports the rejected ones.
\<close>

lemma row_loop_run:
  "row_loop db D S i e ins errs w = ((ins', errs'), w') \<Longrightarrow>
   \<exists>J new. journal w' = journal w @ J \<and> ins' = ins + credited J \<and> errs' = errs @ new \<and>
            map fst J = map (\<lambda>j. InsertValue (D ! j)) [i..<e] \<and>
            length new = rejected_rows J \<and> credited J + rejected_rows J = e - i \<and>
            rows_report S i e new \<and> faithful db (store w) J (store w')"
proof (induction "e - i" arbitrary: i ins errs w)
  case 0
  then show ?case
    by (simp add: row_loop.simps [of db D S i e])
next
  case (Suc d)
  then have lt: "i < e" by simp
  obtain r s' where ins1: "insert_one db (store w) (D ! i) = (r, s')"
    by (cases "insert_one db (store w) (D ! i)")
  define w1 where "w1 = \<lparr>journal = journal w @ [(InsertValue (D ! i), r)], store = s'\<rparr>"
  have v1: "values_one db (D ! i) w = (r, w1)"
    by (simp add: values_one_def ins1 w1_def)
  have d: "d = e - Suc i" using Suc.hyps(2) by simp
  have upt: "[i..<e] = i # [Suc i..<e]" using lt by (simp add: upt_conv_Cons)
  show ?case
  proof (cases r)
    case None
    with Suc.prems lt v1
    have "row_loop db D S (Suc i) e (ins + 1) errs w1 = ((ins', errs'), w')"
      by (simp add: row_loop.simps [of db D S i e])
    from Suc.hyps(1) [OF d this] obtain J new where
      IH: "journal w' = journal w1 @ J" "ins' = ins + 1 + credited J" "errs' = errs @ new"
          "map fst J = map (\<lambda>j. InsertValue (D ! j)) [Suc i..<e]"
          "length new = rejected_rows J" "credited J + rejected_rows J = e - Suc i"
          "rows_report S (Suc i) e new" "faithful db (store w1) J (store w')"
      by blast
    show ?thesis
      apply (rule exI [of _ "(InsertValue (D ! i), r) # J"])
      apply (rule exI [of _ new])
      using IH None lt by (auto simp: w1_def upt ins1 intro: rows_report_widen)
  next
    case (Some rowError)
    let ?x = "\<lparr>rowIndex = i, rowNumber' = i + 1, rowData = elem_at S i,
                error = getErrorMessage rowError\<rparr>"
    from Some Suc.prems lt v1
    have "row_loop db D S (Suc i) e ins (errs @ [?x]) w1 = ((ins', errs'), w')"
      by (simp add: row_loop.simps [of db D S i e])
    from Suc.hyps(1) [OF d this] obtain J new where
      IH: "journal w' = journal w1 @ J" "ins' = ins + credited J" "errs' = (errs @ [?x]) @ new"
          "map fst J = map (\<lambda>j. InsertValue (D ! j)) [Suc i..<e]"
          "length new = rejected_rows J" "credited J + rejected_rows J = e - Suc i"
          "rows_report S (Suc i) e new" "faithful db (store w1) J (store w')"
      by blast
    show ?thesis
      apply (rule exI [of _ "(InsertValue (D ! i), r) # J"])
      apply (rule exI [of _ "?x # new"])
      using IH Some lt by (auto simp: w1_def upt ins1 intro: rows_report_Cons)
  qed
qed

lemma slice_conv_nth:
  "e \<le> length D \<Longrightarrow> map (\<lambda>j. D ! j) [i..<e] = slice D i e"
  by (rule nth_equalityI) (auto simp: slice_def)

lemma slice_chunk:
  "k * c < length D \<Longrightarrow> slice D (k * c) (min (k * c + c) (length D)) = take c (drop (k * c) D)"
  by (auto simp: slice_def min_def)

lemma chunks_of_step:
  "0 < c \<Longrightarrow> k * c < length D \<Longrightarrow>
   chunks_of c (drop (k * c) D) = take c (drop (k * c) D) # chunks_of c (drop ((k + 1) * c) D)"
  by (subst chunks_of.simps) (simp add: add.commute)

lemma chunks_of_Nil [simp]: "chunks_of c [] = []"
  by (subst chunks_of.simps) simp

text \<open>
  One run of the outer loop with a positive chunk size: it never throws, and its journal
  follows the chunked protocol on the chunks that were left.
\<close>

lemma chunk_loop_run:
  assumes c: "0 < c"
  shows "chunk_loop db D S c (ceil_div (length D) c) k ins errs w = (res, w') \<Longrightarrow>
   \<exists>J new. res = Inr (ins + credited J, errs @ new) \<and> journal w' = journal w @ J \<and>
            length new = rejected_rows J \<and> credited J + rejected_rows J = length D - k * c \<and>
            chunk_script (chunks_of c (drop (k * c) D)) J \<and>
            rows_report S (k * c) (length D) new \<and> faithful db (store w) J (store w')"
proof (induction "length D - k * c" arbitrary: k ins errs w rule: less_induct)
  case less
  let ?n = "length D"
  let ?tc = "ceil_div ?n c"
  show ?case
  proof (cases "k * c < ?n")
    case False
    then have "\<not> index_below k ?tc"
      using c by (simp add: index_below_ceil_div)
    with less.prems have "res = Inr (ins, errs)" "w' = w"
      by (simp_all add: chunk_loop.simps [of db D S c ?tc k])
    then show ?thesis
      using False by (intro exI [of _ "[]"]) simp
  next
    case True
    then have guard: "index_below k ?tc"
      using c by (simp add: index_below_ceil_div)
    define start where "start = k * c"
    define end' where "end' = min (start + c) ?n"
    define chunk where "chunk = slice D start end'"
    have chunk_eq: "chunk = take c (drop (k * c) D)"
      using True by (simp add: chunk_def end'_def start_def slice_chunk)
    have chunk_ne: "chunk \<noteq> []"
      using True c by (simp add: chunk_eq)
    have len_chunk: "length chunk = end' - start"
      using True by (simp add: chunk_def slice_def end'_def start_def)
    have end_le: "end' \<le> ?n" by (simp add: end'_def)
    have rest: "end' - start + (?n - (k + 1) * c) = ?n - k * c"
      using True c by (auto simp: end'_def start_def min_def)
    have smaller: "?n - (k + 1) * c < ?n - k * c"
      using True c by simp
    obtain r s' where ins1: "insert_many db (store w) chunk = (r, s')"
      by (cases "insert_many db (store w) chunk")
    define w1 where "w1 = \<lparr>journal = journal w @ [(InsertValues chunk, r)], store = s'\<rparr>"
    have v1: "values_many db chunk w = (Inr r, w1)"
      using chunk_ne by (simp add: values_many_def ins1 w1_def)
    have script: "chunks_of c (drop (k * c) D) = chunk # chunks_of c (drop ((k + 1) * c) D)"
      using chunks_of_step [OF c True] by (simp add: chunk_eq)
    show ?thesis
    proof (cases r)
      case None
      with less.prems guard v1
      have "chunk_loop db D S c ?tc (k + 1) (ins + length chunk) errs w1 = (res, w')"
        by (simp add: chunk_loop.simps [of db D S c ?tc k] Let_def
                      start_def [symmetric] end'_def [symmetric] chunk_def [symmetric])
      from less.hyps [OF smaller this] obtain J new where
        IH: "res = Inr (ins + length chunk + credited J, errs @ new)"
            "journal w' = journal w1 @ J" "length new = rejected_rows J"
            "credited J + rejected_rows J = ?n - (k + 1) * c"
            "chunk_script (chunks_of c (drop ((k + 1) * c) D)) J"
            "rows_report S ((k + 1) * c) ?n new" "faithful db (store w1) J (store w')"
        by blast
      show ?thesis
        apply (rule exI [of _ "(InsertValues chunk, r) # J"])
        apply (rule exI [of _ new])
        using IH None rest len_chunk
        by (auto simp: w1_def script ins1 intro: rows_report_widen)
    next
      case (Some chunkError)
      obtain ins1' errs1 w2 where
        rl: "row_loop db D S start end' ins errs w1 = ((ins1', errs1), w2)"
        by (metis surj_pair)
      with Some less.prems guard v1
      have cl: "chunk_loop db D S c ?tc (k + 1) ins1' errs1 w2 = (res, w')"
        by (simp add: chunk_loop.simps [of db D S c ?tc k] Let_def
                      start_def [symmetric] end'_def [symmetric] chunk_def [symmetric])
      from row_loop_run [OF rl] obtain J1 new1 where
        R: "journal w2 = journal w1 @ J1" "ins1' = ins + credited J1" "errs1 = errs @ new1"
           "map fst J1 = map (\<lambda>j. InsertValue (D ! j)) [start..<end']"
           "length new1 = rejected_rows J1" "credited J1 + rejected_rows J1 = end' - start"
           "rows_report S start end' new1" "faithful db (store w1) J1 (store w2)"
        by blast
      from less.hyps [OF smaller cl] obtain J2 new2 where
        IH: "res = Inr (ins1' + credited J2, errs1 @ new2)"
            "journal w' = journal w2 @ J2" "length new2 = rejected_rows J2"
            "credited J2 + rejected_rows J2 = ?n - (k + 1) * c"
            "chunk_script (chunks_of c (drop ((k + 1) * c) D)) J2"
            "rows_report S ((k + 1) * c) ?n new2" "faithful db (store w2) J2 (store w')"
        by blast
      have lenJ1: "length J1 = length chunk"
        using R(4) len_chunk by (metis length_map length_upt)
      have fstJ1: "map fst J1 = map InsertValue chunk"
      proof -
        have "map (\<lambda>j. InsertValue (D ! j)) [start..<end'] =
              map InsertValue (map (\<lambda>j. D ! j) [start..<end'])"
          by simp
        then show ?thesis
          using R(4) slice_conv_nth [OF end_le, of start] by (simp only: chunk_def)
      qed
      have mid: "start \<le> end'" "end' \<le> (k + 1) * c" "start = k * c"
        using True by (auto simp: end'_def start_def)
      have rep: "rows_report S (k * c) ?n (new1 @ new2)"
      proof (rule rows_report_append [where mid = end'])
        show "rows_report S (k * c) end' new1" using R(7) mid by simp
        show "rows_report S end' ?n new2"
          using IH(6) mid by (auto intro: rows_report_widen)
        show "k * c \<le> end'" using mid by simp
        show "end' \<le> ?n" by (rule end_le)
      qed
      have fa: "faithful db (store w1) (J1 @ J2) (store w')"
        using R(8) IH(7) by (rule faithful_append)
      show ?thesis
        apply (rule exI [of _ "(InsertValues chunk, r) # J1 @ J2"])
        apply (rule exI [of _ "new1 @ new2"])
        using IH(1-5) R(1-3,5,6) Some rest lenJ1 fstJ1 rep fa
        by (auto simp: w1_def script ins1)
    qed
  qed
qed

section \<open>storeSheetData\<close>

lemma insertRowsInChunks_run:
  assumes "0 < c" and "insertRowsInChunks db D S c w = (res, w')"
  shows "\<exists>J new. res = Inr (credited J, new) \<and> journal w' = journal w @ J \<and>
            length new = rejected_rows J \<and> credited J + rejected_rows J = length D \<and>
            chunk_script (chunks_of c D) J \<and> rows_report S 0 (length D) new \<and>
            faithful db (store w) J (store w')"
  using chunk_loop_run [OF assms(1), of db D S 0 0 "[]" w res w'] assms(2)
  by (simp add: insertRowsInChunks_def)

lemma length_tag_rows [simp]: "length (tag_rows bid rows) = length rows"
  by (simp add: tag_rows_def)

lemma getNextBatchId_journal:
  assumes "getNextBatchId db t w = (Inr bid, w1)"
  shows "journal w1 = journal w @ [(QueryNextBatchId t, None)]"
proof -
  obtain r s' where q: "next_batch_id_query db (store w) t = (r, s')"
    by (cases "next_batch_id_query db (store w) t")
  show ?thesis
    using assms
    by (auto simp: getNextBatchId_def run_next_batch_id_query_def q outcome_of_def Let_def
             split: sum.splits list.splits if_splits)
qed

lemma storeSheetData_run:
  assumes ne: "rows \<noteq> []"
    and alloc: "getNextBatchId db t w = (Inr bid, w1)"
    and run: "storeSheetData db (Some (JArr rows)) t w = (res, w')"
  shows "\<exists>J n errs. res = Inr \<lparr>success = True, batchId' = bid, inserted = n, errors = errs\<rparr> \<and>
           journal w' = journal w1 @ J \<and> n = credited J \<and> length errs = rejected_rows J \<and>
           credited J + rejected_rows J = length rows \<and> rows_report rows 0 (length rows) errs \<and>
           faithful db (store w1) J (store w') \<and>
           (if length rows > 10000 then chunk_script (chunks_of CHUNK_SIZE (tag_rows bid rows)) J
            else \<exists>out J'. J = (InsertValues (tag_rows bid rows), out) # J' \<and>
                   (case out of None \<Rightarrow> J' = []
                    | Some e \<Rightarrow> chunk_script (chunks_of CHUNK_SIZE (tag_rows bid rows)) J'))"
proof -
  let ?D = "tag_rows bid rows"
  have c: "0 < CHUNK_SIZE" by (simp add: CHUNK_SIZE_def)
  have Dne: "?D \<noteq> []" using ne by (simp add: tag_rows_def enumerate_eq_zip)
  show ?thesis
  proof (cases "length rows > 10000")
    case True
    obtain r2 w2 where ic: "insertRowsInChunks db ?D rows CHUNK_SIZE w1 = (r2, w2)"
      by (cases "insertRowsInChunks db ?D rows CHUNK_SIZE w1")
    from insertRowsInChunks_run [OF c ic] obtain J new where
      R: "r2 = Inr (credited J, new)" "journal w2 = journal w1 @ J"
         "length new = rejected_rows J" "credited J + rejected_rows J = length ?D"
         "chunk_script (chunks_of CHUNK_SIZE ?D) J" "rows_report rows 0 (length ?D) new"
         "faithful db (store w1) J (store w2)"
      by blast
    from run ne alloc True ic R(1)
    have "res = Inr \<lparr>success = True, batchId' = bid, inserted = credited J, errors = new\<rparr>"
         "w' = w2"
      by simp_all
    with R True show ?thesis by auto
  next
    case False
    obtain r s' where ins1: "insert_many db (store w1) ?D = (r, s')"
      by (cases "insert_many db (store w1) ?D")
    define w2 where "w2 = \<lparr>journal = journal w1 @ [(InsertValues ?D, r)], store = s'\<rparr>"
    have v: "values_many db ?D w1 = (Inr r, w2)"
      using Dne by (simp add: values_many_def ins1 w2_def)
    show ?thesis
    proof (cases r)
      case None
      from run ne alloc False v None
      have "res = Inr \<lparr>success = True, batchId' = bid, inserted = length rows, errors = []\<rparr>"
           "w' = w2"
        by simp_all
      then show ?thesis
        using False None
        by (intro exI [of _ "[(InsertValues ?D, r)]"]) (simp add: w2_def ins1)
    next
      case (Some insertError)
      obtain r3 w3 where ic: "insertRowsInChunks db ?D rows CHUNK_SIZE w2 = (r3, w3)"
        by (cases "insertRowsInChunks db ?D rows CHUNK_SIZE w2")
      from insertRowsInChunks_run [OF c ic] obtain J new where
        R: "r3 = Inr (credited J, new)" "journal w3 = journal w2 @ J"
           "length new = rejected_rows J" "credited J + rejected_rows J = length ?D"
           "chunk_script (chunks_of CHUNK_SIZE ?D) J" "rows_report rows 0 (length ?D) new"
           "faithful db (store w2) J (store w3)"
        by blast
      from run ne alloc False v Some ic R(1)
      have "res = Inr \<lparr>success = True, batchId' = bid, inserted = credited J, errors = new\<rparr>"
           "w' = w3"
        by simp_all
      with R False Some show ?thesis
        by (intro exI [of _ "(InsertValues ?D, r) # J"]) (simp add: w2_def ins1)
    qed
  qed
qed

text \<open>
  C1. For a non-empty list of rows, once the batch id is allocated, \<open>storeSheetData\<close>
  returns a result in which \<open>inserted\<close> plus the number of error entries is the number of
  rows. \<open>inserted\<close> is the number of rows of the resolved bulk, chunk and single inserts
  of the run, the error entries are as many as the rejected single inserts, and they are
  entries of distinct rows of the input, in increasing order, each with its own row number
  and payload.
\<close>

theorem storeSheetData_counts_every_row:
  assumes "rows \<noteq> []" and "fst (getNextBatchId db tableName w) = Inr bid"
  shows "\<exists>result w'. storeSheetData db (Some (JArr rows)) tableName w = (Inr result, w') \<and>
           inserted result + length (errors result) = length rows \<and>
           inserted result = credited (new_entries w w') \<and>
           length (errors result) = rejected_rows (new_entries w w') \<and>
           rows_report rows 0 (length rows) (errors result)"
proof -
  obtain w1 where alloc: "getNextBatchId db tableName w = (Inr bid, w1)"
    using assms(2) by (cases "getNextBatchId db tableName w") simp
  obtain res w' where run: "storeSheetData db (Some (JArr rows)) tableName w = (res, w')"
    by (cases "storeSheetData db (Some (JArr rows)) tableName w")
  from storeSheetData_run [OF assms(1) alloc run] obtain J n errs where
    R: "res = Inr \<lparr>success = True, batchId' = bid, inserted = n, errors = errs\<rparr>"
       "journal w' = journal w1 @ J" "n = credited J" "length errs = rejected_rows J"
       "credited J + rejected_rows J = length rows" "rows_report rows 0 (length rows) errs"
    by blast
  have "new_entries w w' = (QueryNextBatchId tableName, None) # J"
    using R(2) getNextBatchId_journal [OF alloc] by (simp add: new_entries_def)
  with R run show ?thesis by simp
qed

lemma credited_all_rejected:
  "\<forall>entry \<in> set J. is_insert (fst entry) \<longrightarrow> snd entry \<noteq> None \<Longrightarrow> credited J = 0"
proof (induction J)
  case Nil
  then show ?case by simp
next
  case (Cons x J)
  then have "credited_entry x = 0"
    by (cases x rule: credited_entry.cases) auto
  with Cons show ?case by simp
qed

lemma rejected_rows_none:
  "\<forall>entry \<in> set J. is_single_insert (fst entry) \<longrightarrow> snd entry = None \<Longrightarrow> rejected_rows J = 0"
proof (induction J)
  case Nil
  then show ?case by simp
next
  case (Cons x J)
  then have "\<not> rejected_row x"
    by (cases x rule: rejected_row.cases) auto
  with Cons show ?case by simp
qed

lemma rows_report_full:
  assumes "rows_report S lo hi new" and "length new = hi - lo"
  shows "map rowIndex new = [lo..<hi]"
proof -
  let ?xs = "map rowIndex new"
  have sw: "sorted_wrt (<) ?xs" and sub: "set ?xs \<subseteq> {lo..<hi}"
    using assms(1) by (auto simp: rows_report_def)
  have dist: "distinct ?xs" and srt: "sorted ?xs"
    using sw by (simp_all add: strict_sorted_iff)
  have "card (set ?xs) = length ?xs"
    using dist by (rule distinct_card)
  then have "card (set ?xs) = card {lo..<hi}"
    using assms(2) by simp
  with sub have "set ?xs = {lo..<hi}"
    by (simp add: card_subset_eq)
  then have "set ?xs = set [lo..<hi]" by simp
  with srt dist show ?thesis
    by (intro sorted_distinct_set_unique) simp_all
qed

lemma chunks_of_length:
  "ch \<in> set (chunks_of c xs) \<Longrightarrow> length ch \<le> c"
proof (induction c xs rule: chunks_of.induct)
  case (1 c xs)
  then show ?case
    by (subst (asm) (2) chunks_of.simps) (auto split: if_splits)
qed

lemma chunks_of_single:
  "xs \<noteq> [] \<Longrightarrow> length xs \<le> c \<Longrightarrow> chunks_of c xs = [xs]"
  by (subst chunks_of.simps) (cases c; auto)

lemma chunk_script_stmts:
  "chunk_script chs J \<Longrightarrow> entry \<in> set J \<Longrightarrow>
   (\<exists>ch \<in> set chs. fst entry = InsertValues ch \<or> (\<exists>r \<in> set ch. fst entry = InsertValue r))"
proof (induction chs J rule: chunk_script.induct)
  case (1 J)
  then show ?case by simp
next
  case (2 chunk chunks)
  then show ?case by simp
next
  case (3 chunk chunks st out J)
  show ?case
  proof (cases "entry = (st, out)")
    case True
    with "3.prems" show ?thesis by simp
  next
    case False
    with "3.prems" have inJ: "entry \<in> set J" by simp
    show ?thesis
    proof (cases out)
      case None
      with 3 inJ show ?thesis by auto
    next
      case (Some e)
      with "3.prems" have fs: "map fst (take (length chunk) J) = map InsertValue chunk"
        and cs: "chunk_script chunks (drop (length chunk) J)" by simp_all
      from inJ have "entry \<in> set (take (length chunk) J) \<or> entry \<in> set (drop (length chunk) J)"
        by (metis Un_iff append_take_drop_id set_append)
      then show ?thesis
      proof
        assume "entry \<in> set (take (length chunk) J)"
        then have "fst entry \<in> set (map fst (take (length chunk) J))" by force
        with fs have "fst entry \<in> InsertValue ` set chunk" by simp
        then show ?thesis by auto
      next
        assume "entry \<in> set (drop (length chunk) J)"
        with "3.IH"(2) [OF Some cs] show ?thesis by auto
      qed
    qed
  qed
qed

lemma chunk_script_single:
  "chunk_script chs J \<Longrightarrow> (InsertValue r, out) \<in> set J \<Longrightarrow>
   \<exists>ch e. (InsertValues ch, Some e) \<in> set J \<and> r \<in> set ch \<and> ch \<in> set chs"
proof (induction chs J rule: chunk_script.induct)
  case (1 J)
  then show ?case by simp
next
  case (2 chunk chunks)
  then show ?case by simp
next
  case (3 chunk chunks st out' J)
  from "3.prems" have st: "st = InsertValues chunk" by simp
  with "3.prems" have inJ: "(InsertValue r, out) \<in> set J" by auto
  show ?case
  proof (cases out')
    case None
    with "3.prems" have "chunk_script chunks J" by simp
    from "3.IH"(1) [OF None this inJ] show ?thesis by auto
  next
    case (Some e)
    with "3.prems" have fs: "map fst (take (length chunk) J) = map InsertValue chunk"
      and cs: "chunk_script chunks (drop (length chunk) J)" by simp_all
    from inJ have "(InsertValue r, out) \<in> set (take (length chunk) J)
                   \<or> (InsertValue r, out) \<in> set (drop (length chunk) J)"
      by (metis Un_iff append_take_drop_id set_append)
    then show ?thesis
    proof
      assume "(InsertValue r, out) \<in> set (take (length chunk) J)"
      then have "InsertValue r \<in> set (map fst (take (length chunk) J))" by force
      with fs have "r \<in> set chunk" by auto
      then show ?thesis using st Some by auto
    next
      assume a: "(InsertValue r, out) \<in> set (drop (length chunk) J)"
      from "3.IH"(2) [OF Some cs a] obtain ch e' where
        "(InsertValues ch, Some e') \<in> set (drop (length chunk) J)" "r \<in> set ch" "ch \<in> set chunks"
        by blast
      then show ?thesis
        by (meson in_set_dropD list.set_intros(1,2))
    qed
  qed
qed

text \<open>
  C2. For a non-empty list of rows, once the batch id is allocated, no rejected insert makes
  \<open>storeSheetData\<close> throw: it returns a result with \<open>success = True\<close>. When every insert of
  the run is rejected (the bulk insert, every chunk and every single row), the result has
  \<open>inserted = 0\<close> and exactly one error entry for each row index \<open>0, \<dots>, n - 1\<close>.
\<close>

theorem storeSheetData_row_failures_are_data:
  assumes "rows \<noteq> []" and "fst (getNextBatchId db tableName w) = Inr bid"
  shows "\<exists>result w'. storeSheetData db (Some (JArr rows)) tableName w = (Inr result, w') \<and>
           success result \<and> batchId' result = bid \<and>
           ((\<forall>entry \<in> set (new_entries w w'). is_insert (fst entry) \<longrightarrow> snd entry \<noteq> None) \<longrightarrow>
              inserted result = 0 \<and> length (errors result) = length rows \<and>
              map rowIndex (errors result) = [0..<length rows])"
proof -
  obtain w1 where alloc: "getNextBatchId db tableName w = (Inr bid, w1)"
    using assms(2) by (cases "getNextBatchId db tableName w") simp
  obtain res w' where run: "storeSheetData db (Some (JArr rows)) tableName w = (res, w')"
    by (cases "storeSheetData db (Some (JArr rows)) tableName w")
  from storeSheetData_run [OF assms(1) alloc run] obtain J n errs where
    R: "res = Inr \<lparr>success = True, batchId' = bid, inserted = n, errors = errs\<rparr>"
       "journal w' = journal w1 @ J" "n = credited J" "length errs = rejected_rows J"
       "credited J + rejected_rows J = length rows" "rows_report rows 0 (length rows) errs"
    by blast
  have ne: "new_entries w w' = (QueryNextBatchId tableName, None) # J"
    using R(2) getNextBatchId_journal [OF alloc] by (simp add: new_entries_def)
  have "n = 0 \<and> length errs = length rows \<and> map rowIndex errs = [0..<length rows]"
    if all: "\<forall>entry \<in> set (new_entries w w'). is_insert (fst entry) \<longrightarrow> snd entry \<noteq> None"
  proof -
    from all ne have "\<forall>entry \<in> set J. is_insert (fst entry) \<longrightarrow> snd entry \<noteq> None" by simp
    then have z: "credited J = 0" by (rule credited_all_rejected)
    with R have len: "length errs = length rows - 0" by simp
    from rows_report_full [OF R(6) len] z R(3) len show ?thesis by simp
  qed
  with R(1) run show ?thesis by simp
qed

text \<open>
  C4. For a non-empty list of rows, if every single-row insert of the run resolves, whatever
  happened to the bulk insert and to the chunk inserts before, the result is
  \<open>inserted = n\<close> with no error entry: the very record that the path of a resolved bulk
  insert returns.
\<close>

theorem storeSheetData_degrades_to_full_success:
  assumes "rows \<noteq> []"
    and "fst (getNextBatchId db tableName w) = Inr bid"
    and "storeSheetData db (Some (JArr rows)) tableName w = (res, w')"
    and "\<forall>entry \<in> set (new_entries w w'). is_single_insert (fst entry) \<longrightarrow> snd entry = None"
  shows "res = Inr \<lparr>success = True, batchId' = bid, inserted = length rows, errors = []\<rparr>"
proof -
  obtain w1 where alloc: "getNextBatchId db tableName w = (Inr bid, w1)"
    using assms(2) by (cases "getNextBatchId db tableName w") simp
  from storeSheetData_run [OF assms(1) alloc assms(3)] obtain J n errs where
    R: "res = Inr \<lparr>success = True, batchId' = bid, inserted = n, errors = errs\<rparr>"
       "journal w' = journal w1 @ J" "n = credited J" "length errs = rejected_rows J"
       "credited J + rejected_rows J = length rows"
    by blast
  have "new_entries w w' = (QueryNextBatchId tableName, None) # J"
    using R(2) getNextBatchId_journal [OF alloc] by (simp add: new_entries_def)
  with assms(4) have "\<forall>entry \<in> set J. is_single_insert (fst entry) \<longrightarrow> snd entry = None"
    by simp
  then have "rejected_rows J = 0" by (rule rejected_rows_none)
  with R show ?thesis by simp
qed

text \<open>
  C3. The chunk size is 5000. After the allocation, a run on more than 10000 rows follows the
  chunked protocol from its first statement and never issues an insert of the whole set; a
  run on at most 10000 rows first issues one insert of the whole set, issues nothing more
  when that insert resolves, and follows the chunked protocol afterwards when it is
  rejected.
\<close>

theorem storeSheetData_size_threshold:
  assumes "rows \<noteq> []"
    and "getNextBatchId db tableName w = (Inr bid, w1)"
    and "storeSheetData db (Some (JArr rows)) tableName w = (res, w')"
  shows "CHUNK_SIZE = 5000 \<and> journal w' = journal w1 @ new_entries w1 w' \<and>
         (if length rows > 10000
          then chunk_script (chunks_of CHUNK_SIZE (tag_rows bid rows)) (new_entries w1 w') \<and>
               (\<forall>entry \<in> set (new_entries w1 w'). fst entry \<noteq> InsertValues (tag_rows bid rows))
          else \<exists>out J'. new_entries w1 w' = (InsertValues (tag_rows bid rows), out) # J' \<and>
                 (case out of
                    None \<Rightarrow> J' = []
                  | Some e \<Rightarrow> chunk_script (chunks_of CHUNK_SIZE (tag_rows bid rows)) J'))"
proof -
  let ?D = "tag_rows bid rows"
  from storeSheetData_run [OF assms] obtain J where
    R: "journal w' = journal w1 @ J"
       "if length rows > 10000 then chunk_script (chunks_of CHUNK_SIZE ?D) J
        else \<exists>out J'. J = (InsertValues ?D, out) # J' \<and>
               (case out of None \<Rightarrow> J' = [] | Some e \<Rightarrow> chunk_script (chunks_of CHUNK_SIZE ?D) J')"
    by blast
  have J: "new_entries w1 w' = J" using R(1) by (simp add: new_entries_def)
  have "fst entry \<noteq> InsertValues ?D"
    if big: "length rows > 10000" and mem: "entry \<in> set J" for entry
  proof
    assume eq: "fst entry = InsertValues ?D"
    from R(2) big have "chunk_script (chunks_of CHUNK_SIZE ?D) J" by simp
    from chunk_script_stmts [OF this mem] eq
    have "?D \<in> set (chunks_of CHUNK_SIZE ?D)" by auto
    then have "length ?D \<le> CHUNK_SIZE" by (rule chunks_of_length)
    with big show False by (simp add: CHUNK_SIZE_def)
  qed
  with R J show ?thesis by (auto simp: CHUNK_SIZE_def)
qed

text \<open>
  C9. When the bulk insert of at most 10000 rows is rejected, what follows is the chunked
  protocol on the same rows: chunk inserts first. For at most 5000 rows the only chunk is the
  whole set, so the first statement of the fallback is the same insert again, and the single
  inserts of all rows follow only when it is rejected too. A single insert of a row is issued
  only when a rejected chunk insert of a chunk holding that row is in the journal.
\<close>

theorem storeSheetData_fallback_retries_chunks:
  assumes "rows \<noteq> []" and "length rows \<le> 10000"
    and "getNextBatchId db tableName w = (Inr bid, w1)"
    and "fst (insert_many db (store w1) (tag_rows bid rows)) = Some e"
    and "storeSheetData db (Some (JArr rows)) tableName w = (res, w')"
  shows "\<exists>J. new_entries w1 w' = (InsertValues (tag_rows bid rows), Some e) # J \<and>
           chunk_script (chunks_of CHUNK_SIZE (tag_rows bid rows)) J \<and>
           (length rows \<le> 5000 \<longrightarrow>
              (\<exists>out J'. J = (InsertValues (tag_rows bid rows), out) # J' \<and>
                 (case out of
                    None \<Rightarrow> J' = []
                  | Some e' \<Rightarrow> map fst J' = map InsertValue (tag_rows bid rows)))) \<and>
           (\<forall>entry \<in> set J. \<forall>r. fst entry = InsertValue r \<longrightarrow>
              (\<exists>chunk e'. (InsertValues chunk, Some e') \<in> set J \<and> r \<in> set chunk \<and>
                          chunk \<in> set (chunks_of CHUNK_SIZE (tag_rows bid rows))))"
proof -
  let ?D = "tag_rows bid rows"
  have Dne: "?D \<noteq> []" using assms(1) by (simp add: tag_rows_def enumerate_eq_zip)
  from storeSheetData_run [OF assms(1,3,5)] assms(2) obtain J0 out J where
    R: "journal w' = journal w1 @ J0" "J0 = (InsertValues ?D, out) # J"
       "case out of None \<Rightarrow> J = [] | Some e \<Rightarrow> chunk_script (chunks_of CHUNK_SIZE ?D) J"
    by auto
  obtain s' where ins1: "insert_many db (store w1) ?D = (Some e, s')"
    using assms(4) by (cases "insert_many db (store w1) ?D") simp
  have v: "values_many db ?D w1 =
             (Inr (Some e), \<lparr>journal = journal w1 @ [(InsertValues ?D, Some e)], store = s'\<rparr>)"
    using Dne by (simp add: values_many_def ins1)
  obtain r3 w3 where ic:
    "insertRowsInChunks db ?D rows CHUNK_SIZE
       \<lparr>journal = journal w1 @ [(InsertValues ?D, Some e)], store = s'\<rparr> = (r3, w3)"
    by (metis surj_pair)
  have c: "0 < CHUNK_SIZE" by (simp add: CHUNK_SIZE_def)
  from insertRowsInChunks_run [OF c ic] obtain Jc where
    Jc: "journal w3 = (journal w1 @ [(InsertValues ?D, Some e)]) @ Jc" by auto
  have "w' = w3"
    using assms(1,2,3,5) v ic insertRowsInChunks_run [OF c ic] by auto
  with Jc R(1,2) have out: "out = Some e" by simp
  with R(3) have script: "chunk_script (chunks_of CHUNK_SIZE ?D) J" by simp
  have J: "new_entries w1 w' = (InsertValues ?D, Some e) # J"
    using R(1,2) out by (simp add: new_entries_def)
  have small: "\<exists>out J'. J = (InsertValues ?D, out) # J' \<and>
                 (case out of None \<Rightarrow> J' = [] | Some e' \<Rightarrow> map fst J' = map InsertValue ?D)"
    if "length rows \<le> 5000"
  proof -
    from that Dne have "chunks_of CHUNK_SIZE ?D = [?D]"
      by (intro chunks_of_single) (simp_all add: CHUNK_SIZE_def)
    with script have cs: "chunk_script [?D] J" by simp
    then obtain st out2 J' where J': "J = (st, out2) # J'"
      by (cases J) auto
    with cs show ?thesis
      by (cases out2) (auto simp: chunk_script.simps)
  qed
  have single: "\<exists>chunk e'. (InsertValues chunk, Some e') \<in> set J \<and> r \<in> set chunk \<and>
                  chunk \<in> set (chunks_of CHUNK_SIZE ?D)"
    if "entry \<in> set J" and "fst entry = InsertValue r" for entry r
  proof -
    from that have "(InsertValue r, snd entry) \<in> set J" by (metis prod.collapse)
    from chunk_script_single [OF script this] show ?thesis .
  qed
  from J script small single show ?thesis by blast
qed

section \<open>storeSheetData on concrete runs\<close>

theorem storeSheetData_counts_every_row_witness:
  "three_rows \<noteq> [] \<and>
   fst (getNextBatchId pg ''sheet_data'' (empty_store [False, True, True, False, True, False])) = Inr (Fin 1) \<and>
   fst (storeSheetData pg (Some (JArr three_rows)) ''sheet_data''
          (empty_store [False, True, True, False, True, False])) =
     Inr \<lparr>success = True, batchId' = Fin 1, inserted = 2,
          errors = [\<lparr>rowIndex = 1, rowNumber' = 2, rowData = Some (JObj [(''a'', JNum 2)]),
                     error = ''Connection terminated unexpectedly''\<rparr>]\<rparr> \<and>
   (\<exists>result w'. storeSheetData pg (Some (JArr three_rows)) ''sheet_data''
                   (empty_store [False, True, True, False, True, False]) = (Inr result, w') \<and>
      inserted result + length (errors result) = length three_rows \<and>
      inserted result = credited (new_entries (empty_store [False, True, True, False, True, False]) w') \<and>
      length (errors result) = rejected_rows (new_entries (empty_store [False, True, True, False, True, False]) w') \<and>
      rows_report three_rows 0 (length three_rows) (errors result))"
proof -
  let ?W = "empty_store [False, True, True, False, True, False]"
  have ne: "three_rows \<noteq> []"
    by (simp add: three_rows_def)
  have alloc: "fst (getNextBatchId pg ''sheet_data'' ?W) = Inr (Fin 1)"
    by code_simp
  have run: "fst (storeSheetData pg (Some (JArr three_rows)) ''sheet_data'' ?W) =
     Inr \<lparr>success = True, batchId' = Fin 1, inserted = 2,
          errors = [\<lparr>rowIndex = 1, rowNumber' = 2, rowData = Some (JObj [(''a'', JNum 2)]),
                     error = ''Connection terminated unexpectedly''\<rparr>]\<rparr>"
    by code_simp
  from storeSheetData_counts_every_row [OF ne alloc] ne alloc run show ?thesis
    by blast
qed

theorem storeSheetData_row_failures_are_data_witness:
  "three_rows \<noteq> [] \<and>
   fst (getNextBatchId pg ''sheet_data'' (empty_store [False, True, True, True, True, True])) = Inr (Fin 1) \<and>
   map snd (filter (\<lambda>entry. is_insert (fst entry))
              (new_entries (empty_store [False, True, True, True, True, True])
                 (snd (storeSheetData pg (Some (JArr three_rows)) ''sheet_data''
                         (empty_store [False, True, True, True, True, True]))))) =
     replicate 5 (Some (Error ''Connection terminated unexpectedly'')) \<and>
   (\<exists>result. fst (storeSheetData pg (Some (JArr three_rows)) ''sheet_data''
                   (empty_store [False, True, True, True, True, True])) = Inr result \<and>
      success result \<and> batchId' result = Fin 1 \<and> inserted result = 0 \<and>
      length (errors result) = length three_rows \<and>
      map rowIndex (errors result) = [0..<length three_rows])"
proof -
  let ?W = "empty_store [False, True, True, True, True, True]"
  let ?w' = "snd (storeSheetData pg (Some (JArr three_rows)) ''sheet_data'' ?W)"
  have ne: "three_rows \<noteq> []"
    by (simp add: three_rows_def)
  have alloc: "fst (getNextBatchId pg ''sheet_data'' ?W) = Inr (Fin 1)"
    by code_simp
  have outs: "map snd (filter (\<lambda>entry. is_insert (fst entry)) (new_entries ?W ?w')) =
              replicate 5 (Some (Error ''Connection terminated unexpectedly''))"
    by code_simp
  have all: "\<forall>entry \<in> set (new_entries ?W ?w'). is_insert (fst entry) \<longrightarrow> snd entry \<noteq> None"
    by code_simp
  from storeSheetData_row_failures_are_data [OF ne alloc] obtain result w' where
    R: "storeSheetData pg (Some (JArr three_rows)) ''sheet_data'' ?W = (Inr result, w')"
       "success result" "batchId' result = Fin 1"
       "(\<forall>entry \<in> set (new_entries ?W w'). is_insert (fst entry) \<longrightarrow> snd entry \<noteq> None) \<longrightarrow>
          inserted result = 0 \<and> length (errors result) = length three_rows \<and>
          map rowIndex (errors result) = [0..<length three_rows]"
    by blast
  from R(1) have "?w' = w'" by simp
  with all R(4) have "inserted result = 0 \<and> length (errors result) = length three_rows \<and>
          map rowIndex (errors result) = [0..<length three_rows]"
    by simp
  with R(1-3) ne alloc outs show ?thesis
    by simp
qed

theorem storeSheetData_degrades_to_full_success_witness:
  "three_rows \<noteq> [] \<and>
   fst (getNextBatchId pg ''sheet_data'' (empty_store [False, True, True, False, False, False])) = Inr (Fin 1) \<and>
   map snd (new_entries (empty_store [False, True, True, False, False, False])
              (snd (storeSheetData pg (Some (JArr three_rows)) ''sheet_data''
                      (empty_store [False, True, True, False, False, False])))) =
     [None, Some (Error ''Connection terminated unexpectedly''),
      Some (Error ''Connection terminated unexpectedly''), None, None, None] \<and>
   fst (storeSheetData pg (Some (JArr three_rows)) ''sheet_data''
          (empty_store [False, True, True, False, False, False])) =
     Inr \<lparr>success = True, batchId' = Fin 1, inserted = length three_rows, errors = []\<rparr> \<and>
   fst (storeSheetData pg (Some (JArr three_rows)) ''sheet_data'' (empty_store [])) =
     Inr \<lparr>success = True, batchId' = Fin 1, inserted = length three_rows, errors = []\<rparr>"
proof -
  let ?W = "empty_store [False, True, True, False, False, False]"
  let ?res = "fst (storeSheetData pg (Some (JArr three_rows)) ''sheet_data'' ?W)"
  let ?w' = "snd (storeSheetData pg (Some (JArr three_rows)) ''sheet_data'' ?W)"
  have ne: "three_rows \<noteq> []"
    by (simp add: three_rows_def)
  have alloc: "fst (getNextBatchId pg ''sheet_data'' ?W) = Inr (Fin 1)"
    by code_simp
  have run: "storeSheetData pg (Some (JArr three_rows)) ''sheet_data'' ?W = (?res, ?w')"
    by simp
  have outs: "map snd (new_entries ?W ?w') =
     [None, Some (Error ''Connection terminated unexpectedly''),
      Some (Error ''Connection terminated unexpectedly''), None, None, None]"
    by code_simp
  have singles: "\<forall>entry \<in> set (new_entries ?W ?w'). is_single_insert (fst entry) \<longrightarrow> snd entry = None"
    by code_simp
  have bulk: "fst (storeSheetData pg (Some (JArr three_rows)) ''sheet_data'' (empty_store [])) =
     Inr \<lparr>success = True, batchId' = Fin 1, inserted = length three_rows, errors = []\<rparr>"
    by code_simp
  from storeSheetData_degrades_to_full_success [OF ne alloc run singles] ne alloc outs bulk
  show ?thesis by simp
qed

theorem storeSheetData_size_threshold_witness:
  "three_rows \<noteq> [] \<and>
   fst (getNextBatchId pg ''sheet_data'' (empty_store [False, True])) = Inr (Fin 1) \<and>
   new_entries (snd (getNextBatchId pg ''sheet_data'' (empty_store [False, True])))
     (snd (storeSheetData pg (Some (JArr three_rows)) ''sheet_data'' (empty_store [False, True]))) =
     [(InsertValues (tag_rows (Fin 1) three_rows), Some (Error ''Connection terminated unexpectedly'')),
      (InsertValues (tag_rows (Fin 1) three_rows), None)] \<and>
   new_entries (snd (getNextBatchId pg ''sheet_data'' (empty_store [])))
     (snd (storeSheetData pg (Some (JArr three_rows)) ''sheet_data'' (empty_store []))) =
     [(InsertValues (tag_rows (Fin 1) three_rows), None)] \<and>
   10000 < length (replicate 10001 JNull) \<and>
   chunk_script (chunks_of CHUNK_SIZE (tag_rows (Fin 1) (replicate 10001 JNull)))
     (new_entries (snd (getNextBatchId agreeable ''sheet_data'' \<lparr>journal = [], store = ()\<rparr>))
        (snd (storeSheetData agreeable (Some (JArr (replicate 10001 JNull))) ''sheet_data''
                \<lparr>journal = [], store = ()\<rparr>))) \<and>
   InsertValues (tag_rows (Fin 1) (replicate 10001 JNull)) \<notin>
     fst ` set (new_entries (snd (getNextBatchId agreeable ''sheet_data'' \<lparr>journal = [], store = ()\<rparr>))
        (snd (storeSheetData agreeable (Some (JArr (replicate 10001 JNull))) ''sheet_data''
                \<lparr>journal = [], store = ()\<rparr>)))"
proof -
  let ?W = "empty_store [False, True]"
  let ?W1 = "snd (getNextBatchId pg ''sheet_data'' ?W)"
  let ?res = "fst (storeSheetData pg (Some (JArr three_rows)) ''sheet_data'' ?W)"
  let ?w' = "snd (storeSheetData pg (Some (JArr three_rows)) ''sheet_data'' ?W)"
  have ne: "three_rows \<noteq> []"
    by (simp add: three_rows_def)
  have alloc1: "fst (getNextBatchId pg ''sheet_data'' ?W) = Inr (Fin 1)"
    by code_simp
  then have alloc: "getNextBatchId pg ''sheet_data'' ?W = (Inr (Fin 1), ?W1)"
    by (metis prod.collapse)
  have run: "storeSheetData pg (Some (JArr three_rows)) ''sheet_data'' ?W = (?res, ?w')"
    by simp
  have small1: "new_entries ?W1 ?w' =
     [(InsertValues (tag_rows (Fin 1) three_rows), Some (Error ''Connection terminated unexpectedly'')),
      (InsertValues (tag_rows (Fin 1) three_rows), None)]"
    by code_simp
  have small2: "new_entries (snd (getNextBatchId pg ''sheet_data'' (empty_store [])))
     (snd (storeSheetData pg (Some (JArr three_rows)) ''sheet_data'' (empty_store []))) =
     [(InsertValues (tag_rows (Fin 1) three_rows), None)]"
    by code_simp
  note small = storeSheetData_size_threshold [OF ne alloc run]
  let ?B = "replicate 10001 JNull"
  let ?U = "\<lparr>journal = [], store = ()\<rparr> :: unit world"
  let ?U1 = "snd (getNextBatchId agreeable ''sheet_data'' ?U)"
  have ne': "?B \<noteq> []" by simp
  have len: "10000 < length ?B" by simp
  have "fst (getNextBatchId agreeable ''sheet_data'' ?U) = Inr (Fin 1)"
    by code_simp
  then have alloc': "getNextBatchId agreeable ''sheet_data'' ?U = (Inr (Fin 1), ?U1)"
    by (metis prod.collapse)
  have run': "storeSheetData agreeable (Some (JArr ?B)) ''sheet_data'' ?U =
                (fst (storeSheetData agreeable (Some (JArr ?B)) ''sheet_data'' ?U),
                 snd (storeSheetData agreeable (Some (JArr ?B)) ''sheet_data'' ?U))"
    by simp
  from storeSheetData_size_threshold [OF ne' alloc' run'] len
  have big: "chunk_script (chunks_of CHUNK_SIZE (tag_rows (Fin 1) ?B))
          (new_entries ?U1 (snd (storeSheetData agreeable (Some (JArr ?B)) ''sheet_data'' ?U)))"
       "\<forall>entry \<in> set (new_entries ?U1 (snd (storeSheetData agreeable (Some (JArr ?B)) ''sheet_data'' ?U))).
          fst entry \<noteq> InsertValues (tag_rows (Fin 1) ?B)"
    by simp_all
  from big(2) have "InsertValues (tag_rows (Fin 1) ?B) \<notin>
     fst ` set (new_entries ?U1 (snd (storeSheetData agreeable (Some (JArr ?B)) ''sheet_data'' ?U)))"
    by auto
  with ne alloc1 small1 small2 len big(1) show ?thesis
    by simp
qed

theorem storeSheetData_fallback_retries_chunks_witness:
  "three_rows \<noteq> [] \<and> length three_rows \<le> 10000 \<and> length three_rows \<le> 5000 \<and>
   fst (getNextBatchId pg ''sheet_data'' (empty_store [False, True, True, False, True, False])) = Inr (Fin 1) \<and>
   fst (insert_many pg
          (store (snd (getNextBatchId pg ''sheet_data''
                         (empty_store [False, True, True, False, True, False]))))
          (tag_rows (Fin 1) three_rows)) = Some (Error ''Connection terminated unexpectedly'') \<and>
   new_entries (snd (getNextBatchId pg ''sheet_data''
                       (empty_store [False, True, True, False, True, False])))
     (snd (storeSheetData pg (Some (JArr three_rows)) ''sheet_data''
             (empty_store [False, True, True, False, True, False]))) =
     [(InsertValues (tag_rows (Fin 1) three_rows), Some (Error ''Connection terminated unexpectedly'')),
      (InsertValues (tag_rows (Fin 1) three_rows), Some (Error ''Connection terminated unexpectedly'')),
      (InsertValue (tag_rows (Fin 1) three_rows ! 0), None),
      (InsertValue (tag_rows (Fin 1) three_rows ! 1), Some (Error ''Connection terminated unexpectedly'')),
      (InsertValue (tag_rows (Fin 1) three_rows ! 2), None)] \<and>
   (\<exists>J. new_entries (snd (getNextBatchId pg ''sheet_data''
                       (empty_store [False, True, True, False, True, False])))
     (snd (storeSheetData pg (Some (JArr three_rows)) ''sheet_data''
             (empty_store [False, True, True, False, True, False]))) =
       (InsertValues (tag_rows (Fin 1) three_rows), Some (Error ''Connection terminated unexpectedly'')) # J \<and>
       chunk_script (chunks_of CHUNK_SIZE (tag_rows (Fin 1) three_rows)) J)"
proof -
  let ?W = "empty_store [False, True, True, False, True, False]"
  let ?W1 = "snd (getNextBatchId pg ''sheet_data'' ?W)"
  let ?res = "fst (storeSheetData pg (Some (JArr three_rows)) ''sheet_data'' ?W)"
  let ?w' = "snd (storeSheetData pg (Some (JArr three_rows)) ''sheet_data'' ?W)"
  let ?e = "Error ''Connection terminated unexpectedly''"
  have ne: "three_rows \<noteq> []" and le: "length three_rows \<le> 10000" and le5: "length three_rows \<le> 5000"
    by (simp_all add: three_rows_def)
  have alloc1: "fst (getNextBatchId pg ''sheet_data'' ?W) = Inr (Fin 1)"
    by code_simp
  then have alloc: "getNextBatchId pg ''sheet_data'' ?W = (Inr (Fin 1), ?W1)"
    by (metis prod.collapse)
  have bulk: "fst (insert_many pg (store ?W1) (tag_rows (Fin 1) three_rows)) = Some ?e"
    by code_simp
  have run: "storeSheetData pg (Some (JArr three_rows)) ''sheet_data'' ?W = (?res, ?w')"
    by simp
  have entries: "new_entries ?W1 ?w' =
     [(InsertValues (tag_rows (Fin 1) three_rows), Some ?e),
      (InsertValues (tag_rows (Fin 1) three_rows), Some ?e),
      (InsertValue (tag_rows (Fin 1) three_rows ! 0), None),
      (InsertValue (tag_rows (Fin 1) three_rows ! 1), Some ?e),
      (InsertValue (tag_rows (Fin 1) three_rows ! 2), None)]"
    by code_simp
  from storeSheetData_fallback_retries_chunks [OF ne le alloc bulk run]
  obtain J where "new_entries ?W1 ?w' = (InsertValues (tag_rows (Fin 1) three_rows), Some ?e) # J"
    "chunk_script (chunks_of CHUNK_SIZE (tag_rows (Fin 1) three_rows)) J"
    by blast
  with ne le le5 alloc1 bulk entries show ?thesis
    by blast
qed

section \<open>getNextBatchId\<close>

text \<open>
  \<^verbatim>\<open>parseInt\<close> on a few texts: white space of more than one byte is skipped, the value is
  rounded to a double (\<^verbatim>\<open>2^53 + 1\<close> reads as \<^verbatim>\<open>2^53\<close>), and 309 digits read as \<^verbatim>\<open>Infinity\<close>.
\<close>

lemma parseInt_examples:
  "parseInt ''  42abc'' = Fin 42 \<and> parseInt ''-17'' = Fin (- 17) \<and> parseInt ''+5'' = Fin 5 \<and>
   parseInt ''abc'' = NaN \<and> parseInt '''' = NaN \<and> parseInt ''1.5'' = Fin 1 \<and>
   parseInt ([char_of (194 :: nat), char_of (160 :: nat)] @ ''7'') = Fin 7 \<and>
   parseInt ([char_of (160 :: nat)] @ ''7'') = Fin 7 \<and>
   parseInt ([char_of (239 :: nat), char_of (187 :: nat), char_of (191 :: nat)] @ '' 7'') = Fin 7 \<and>
   parseInt ''9007199254740993'' = Fin 9007199254740992 \<and>
   parseInt ''9007199254740995'' = Fin 9007199254740996 \<and>
   parseInt ''-9007199254740993'' = Fin (- 9007199254740992) \<and>
   parseInt (replicate 309 CHR ''9'') = PosInf \<and>
   parseInt (CHR ''-'' # replicate 309 CHR ''9'') = NegInf"
  by code_simp

text \<open>\<^verbatim>\<open>parseInt\<close> reads back the decimal text of every integer of magnitude below \<^verbatim>\<open>2^53\<close>.\<close>

lemma digit_char_facts:
  assumes "d < 10"
  shows "is_digit (digit_char d)" "digit_val (digit_char d) = d"
    "digit_char d \<noteq> CHR ''-''" "digit_char d \<noteq> CHR ''+''"
proof -
  have v: "(of_char (digit_char d) :: nat) = 48 + d"
    using assms by (simp add: digit_char_def)
  show "is_digit (digit_char d)" using assms by (simp add: is_digit_def v)
  show "digit_val (digit_char d) = d" by (simp add: digit_val_def v)
  have "(of_char (digit_char d) :: nat) \<noteq> of_char CHR ''-''" using assms by (simp add: v)
  then show "digit_char d \<noteq> CHR ''-''" by auto
  have "(of_char (digit_char d) :: nat) \<noteq> of_char CHR ''+''" using assms by (simp add: v)
  then show "digit_char d \<noteq> CHR ''+''" by auto
qed

lemma show_nat_shape:
  "show_nat n \<noteq> [] \<and> (\<forall>c \<in> set (show_nat n). is_digit c) \<and> is_digit (hd (show_nat n)) \<and>
   digits_value (show_nat n) = int n"
proof (induction n rule: show_nat.induct)
  case (1 n)
  show ?case
  proof (cases "n < 10")
    case True
    then show ?thesis
      by (simp add: show_nat.simps [of n] digit_char_facts digits_value_def)
  next
    case False
    have m: "n mod 10 < 10" by simp
    from False 1 have IH: "show_nat (n div 10) \<noteq> []"
      "\<forall>c \<in> set (show_nat (n div 10)). is_digit c" "is_digit (hd (show_nat (n div 10)))"
      "digits_value (show_nat (n div 10)) = int (n div 10)"
      by simp_all
    from False have eq: "show_nat n = show_nat (n div 10) @ [digit_char (n mod 10)]"
      by (simp add: show_nat.simps [of n])
    have "int (n div 10) * 10 + int (n mod 10) = int n"
      by (simp add: zdiv_int zmod_int)
    then show ?thesis
      using IH digit_char_facts [OF m] by (simp add: eq digits_value_def)
  qed
qed

lemma skip_space_none:
  assumes "45 \<le> (of_char c :: nat)" and "(of_char c :: nat) \<le> 57"
  shows "skip_space (c # cs) = c # cs"
proof -
  have "white_prefix (c # cs) = 0"
    using assms by (auto simp: white_prefix_def)
  then show ?thesis by (simp add: skip_space.simps [of "c # cs"])
qed

lemma parseInt_digits:
  assumes "ds \<noteq> []" and "\<forall>c \<in> set ds. is_digit c" and "digits_value ds < 2 ^ 53"
  shows "parseInt ds = Fin (of_int (digits_value ds))"
    and "parseInt (CHR ''-'' # ds) = Fin (- of_int (digits_value ds))"
proof -
  obtain c cs where ds: "ds = c # cs" using assms(1) by (cases ds) auto
  with assms(2) have c: "is_digit c" by simp
  then have nm: "c \<noteq> CHR ''-''" and np: "c \<noteq> CHR ''+''"
    by (auto simp: is_digit_def)
  have sk: "skip_space ds = ds"
    using c unfolding ds by (intro skip_space_none) (simp_all add: is_digit_def)
  have sk': "skip_space (CHR ''-'' # ds) = CHR ''-'' # ds"
    by (intro skip_space_none) simp_all
  have tw: "takeWhile is_digit ds = ds" using assms(2) by (simp add: takeWhile_eq_all_conv)
  have nd: "nearest_double (digits_value ds) = Some (digits_value ds)"
    using assms(3) by (simp add: nearest_double_def)
  show "parseInt ds = Fin (of_int (digits_value ds))"
    using nm np assms(1) by (simp add: parseInt_def sk Let_def ds [symmetric] tw nd)
       (simp add: ds)
  show "parseInt (CHR ''-'' # ds) = Fin (- of_int (digits_value ds))"
    using assms(1) by (simp add: parseInt_def sk' Let_def tw nd)
qed

lemma parseInt_show_int:
  assumes "\<bar>n\<bar> < 2 ^ 53"
  shows "parseInt (show_int n) = Fin (of_int n)"
proof (cases "n < 0")
  case True
  let ?ds = "show_nat (nat (- n))"
  have v: "digits_value ?ds = - n"
    using show_nat_shape [of "nat (- n)"] True by simp
  have "digits_value ?ds < 2 ^ 53"
    using assms True by (simp add: v)
  with show_nat_shape [of "nat (- n)"]
  have "parseInt (CHR ''-'' # ?ds) = Fin (- of_int (digits_value ?ds))"
    by (intro parseInt_digits) simp_all
  with True v show ?thesis
    by (simp add: show_int_def)
next
  case False
  let ?ds = "show_nat (nat n)"
  have v: "digits_value ?ds = n"
    using show_nat_shape [of "nat n"] False by simp
  have "digits_value ?ds < 2 ^ 53"
    using assms False by (simp add: v)
  with show_nat_shape [of "nat n"]
  have "parseInt ?ds = Fin (of_int (digits_value ?ds))"
    by (intro parseInt_digits) simp_all
  with False v show ?thesis
    by (simp add: show_int_def)
qed

text \<open>
  C6, as the code has it. \<open>getNextBatchId\<close> throws (status 500) when the store rejects the
  query, when the response has no row, and when \<^verbatim>\<open>parseInt\<close> of the first row's text is NaN. In
  every other case it returns what \<^verbatim>\<open>parseInt\<close> read, whatever its sign: the decimal text of an
  integer \<open>n\<close> of magnitude below \<^verbatim>\<open>2^53\<close>, zero and the negative ones included, comes back as
  the batch id \<open>n\<close>.
\<close>

theorem getNextBatchId_checks_NaN_only:
  "(\<forall>e. fst (next_batch_id_query db (store w) tableName) = Inl e \<longrightarrow>
        fst (getNextBatchId db tableName w) =
          Inl (AppError (formatErrorMessage ''Failed to get next batch ID'' (getErrorMessage e))
                 500)) \<and>
   (fst (next_batch_id_query db (store w) tableName) = Inr [] \<longrightarrow>
      fst (getNextBatchId db tableName w) =
        Inl (AppError ''Failed to retrieve batch ID from database'' 500)) \<and>
   (\<forall>row0 others. fst (next_batch_id_query db (store w) tableName) = Inr (row0 # others) \<longrightarrow>
      (isNaN (parseInt row0) \<longrightarrow>
         fst (getNextBatchId db tableName w) =
           Inl (AppError ''Invalid batch ID returned from database'' 500)) \<and>
      (\<not> isNaN (parseInt row0) \<longrightarrow>
         fst (getNextBatchId db tableName w) = Inr (parseInt row0)) \<and>
      (\<forall>n. \<bar>n\<bar> < 2 ^ 53 \<longrightarrow> row0 = show_int n \<longrightarrow>
         fst (getNextBatchId db tableName w) = Inr (Fin (of_int n))))"
proof -
  obtain r s' where q: "next_batch_id_query db (store w) tableName = (r, s')"
    by (cases "next_batch_id_query db (store w) tableName")
  have g: "fst (getNextBatchId db tableName w) =
          (case r of
             Inl e \<Rightarrow>
               Inl (AppError (formatErrorMessage ''Failed to get next batch ID'' (getErrorMessage e))
                      500)
           | Inr [] \<Rightarrow> Inl (AppError ''Failed to retrieve batch ID from database'' 500)
           | Inr (row0 # others) \<Rightarrow>
               if isNaN (parseInt row0)
               then Inl (AppError ''Invalid batch ID returned from database'' 500)
               else Inr (parseInt row0))"
    by (simp add: getNextBatchId_def run_next_batch_id_query_def q Let_def
             split: sum.splits list.splits)
  have "fst (getNextBatchId db tableName w) = Inr (Fin (of_int n))"
    if "r = Inr (show_int n # others)" and "\<bar>n\<bar> < 2 ^ 53" for n others
    using that by (simp add: g parseInt_show_int)
  then show ?thesis
    using q by (auto simp: g)
qed

text \<open>
  A parsed value of zero, and a negative one, returned as batch ids: from a store that
  answers 0, and from the relation when its only row has batch id -5.
\<close>

theorem getNextBatchId_returns_nonpositive:
  "parseInt ''0'' = Fin 0 \<and>
   fst (getNextBatchId (agreeable\<lparr>next_batch_id_query := (\<lambda>s tableName. (Inr [''0''], s))\<rparr>)
          ''sheet_data'' \<lparr>journal = [], store = ()\<rparr>) = Inr (Fin 0) \<and>
   fst (getNextBatchId pg ''sheet_data''
          \<lparr>journal = [],
           store = \<lparr>sheet_data = [\<lparr>batchId = - 5, rowNumber = 1, data = JNull, id' = 1, createdAt = 0\<rparr>],
                    next_serial = 2, clock = 1, outages = []\<rparr>\<rparr>) = Inr (Fin (- 4))"
  by code_simp

theorem getNextBatchId_checks_NaN_only_witness:
  "fst (next_batch_id_query pg (store (empty_store [True])) ''sheet_data'') =
     Inl (Error ''Connection terminated unexpectedly'') \<and>
   fst (getNextBatchId pg ''sheet_data'' (empty_store [True])) =
     Inl (AppError ''Failed to get next batch ID: Connection terminated unexpectedly'' 500) \<and>
   fst (next_batch_id_query (agreeable\<lparr>next_batch_id_query := (\<lambda>s tableName. (Inr [], s))\<rparr>)
          () ''sheet_data'') = Inr [] \<and>
   fst (getNextBatchId (agreeable\<lparr>next_batch_id_query := (\<lambda>s tableName. (Inr [], s))\<rparr>)
          ''sheet_data'' \<lparr>journal = [], store = ()\<rparr>) =
     Inl (AppError ''Failed to retrieve batch ID from database'' 500) \<and>
   fst (next_batch_id_query (agreeable\<lparr>next_batch_id_query := (\<lambda>s tableName. (Inr [''abc''], s))\<rparr>)
          () ''sheet_data'') = Inr [''abc''] \<and>
   isNaN (parseInt ''abc'') \<and>
   fst (getNextBatchId (agreeable\<lparr>next_batch_id_query := (\<lambda>s tableName. (Inr [''abc''], s))\<rparr>)
          ''sheet_data'' \<lparr>journal = [], store = ()\<rparr>) =
     Inl (AppError ''Invalid batch ID returned from database'' 500) \<and>
   fst (next_batch_id_query pg
          \<lparr>sheet_data = [\<lparr>batchId = - 5, rowNumber = 1, data = JNull, id' = 1, createdAt = 0\<rparr>],
           next_serial = 2, clock = 1, outages = []\<rparr> ''sheet_data'') = Inr [show_int (- 4)] \<and>
   \<bar>- 4 :: int\<bar> < 2 ^ 53 \<and>
   fst (getNextBatchId pg ''sheet_data''
          \<lparr>journal = [],
           store = \<lparr>sheet_data = [\<lparr>batchId = - 5, rowNumber = 1, data = JNull, id' = 1, createdAt = 0\<rparr>],
                    next_serial = 2, clock = 1, outages = []\<rparr>\<rparr>) = Inr (Fin (of_int (- 4)))"
proof -
  let ?s = "\<lparr>sheet_data = [\<lparr>batchId = - 5, rowNumber = 1, data = JNull, id' = 1, createdAt = 0\<rparr>],
             next_serial = 2, clock = 1, outages = []\<rparr>"
  let ?w = "\<lparr>journal = [], store = ?s\<rparr>"
  let ?none = "agreeable\<lparr>next_batch_id_query := (\<lambda>s tableName. (Inr [], s))\<rparr>"
  let ?abc = "agreeable\<lparr>next_batch_id_query := (\<lambda>s tableName. (Inr [''abc''], s))\<rparr>"
  let ?u = "\<lparr>journal = [], store = ()\<rparr> :: unit world"
  have lost: "fst (next_batch_id_query pg (store (empty_store [True])) ''sheet_data'') =
                Inl (Error ''Connection terminated unexpectedly'')"
    by code_simp
  have msg: "formatErrorMessage ''Failed to get next batch ID''
               (getErrorMessage (Error ''Connection terminated unexpectedly'')) =
             ''Failed to get next batch ID: Connection terminated unexpectedly''"
    by (simp add: formatErrorMessage_def)
  have none: "fst (next_batch_id_query ?none (store ?u) ''sheet_data'') = Inr []"
    by (simp add: agreeable_def)
  have abc: "fst (next_batch_id_query ?abc (store ?u) ''sheet_data'') = Inr (''abc'' # [])"
    by (simp add: agreeable_def)
  have nan: "isNaN (parseInt ''abc'')"
    by code_simp
  have q: "fst (next_batch_id_query pg (store ?w) ''sheet_data'') = Inr (show_int (- 4) # [])"
    by code_simp
  have small: "\<bar>- 4 :: int\<bar> < 2 ^ 53" by simp
  note t1 = getNextBatchId_checks_NaN_only [of pg "empty_store [True]" "''sheet_data''"]
  note t2 = getNextBatchId_checks_NaN_only [of ?none ?u "''sheet_data''"]
  note t3 = getNextBatchId_checks_NaN_only [of ?abc ?u "''sheet_data''"]
  note t4 = getNextBatchId_checks_NaN_only [of pg ?w "''sheet_data''"]
  from t1 lost have r1: "fst (getNextBatchId pg ''sheet_data'' (empty_store [True])) =
     Inl (AppError ''Failed to get next batch ID: Connection terminated unexpectedly'' 500)"
    by (simp add: formatErrorMessage_def)
  from t2 none have r2: "fst (getNextBatchId ?none ''sheet_data'' ?u) =
     Inl (AppError ''Failed to retrieve batch ID from database'' 500)"
    by blast
  from t3 abc nan have r3: "fst (getNextBatchId ?abc ''sheet_data'' ?u) =
     Inl (AppError ''Invalid batch ID returned from database'' 500)"
    by blast
  from t4 q small have r4: "fst (getNextBatchId pg ''sheet_data'' ?w) = Inr (Fin (of_int (- 4)))"
    by blast
  from lost r1 none r2 abc nan r3 q small r4 show ?thesis
    by simp
qed

section \<open>fetchBatchData\<close>

lemma fetchBatchData_cases:
  "fetchBatchData db b w =
     (if isNaN b \<or> js_less b 1
      then (Inl (AppError (''Invalid batchId: '' @ number_text b @ ''. Must be a positive number.'') 400), w)
      else (case fst (batch_query db (store w) b) of
              Inl e \<Rightarrow> Inl (AppError (formatErrorMessage ''Failed to fetch batch data'' (getErrorMessage e)) 500)
            | Inr rows \<Rightarrow> Inr rows,
            \<lparr>journal = journal w @ [(SelectBatch b, outcome_of (fst (batch_query db (store w) b)))],
             store = snd (batch_query db (store w) b)\<rparr>))"
  by (cases "batch_query db (store w) b")
     (auto simp: fetchBatchData_def run_batch_query_def split: sum.splits)

text \<open>
  C7, as the code has it. \<open>fetchBatchData\<close> throws the status-400 error exactly when its
  argument is NaN or less than 1, and then the world is untouched: no query is issued. For
  every other argument, integer or not, exactly one query is issued, and it carries the
  argument as it is. The route handler, whose argument comes from \<^verbatim>\<open>parseInt\<close>, answers 400
  exactly when the route parameter does not parse to a number that is at least 1.
\<close>

theorem fetchBatchData_guard:
  "((\<exists>m. fst (fetchBatchData db b w) = Inl (AppError m 400)) \<longleftrightarrow> (isNaN b \<or> js_less b 1)) \<and>
   (isNaN b \<or> js_less b 1 \<longrightarrow> snd (fetchBatchData db b w) = w) \<and>
   (\<not> (isNaN b \<or> js_less b 1) \<longrightarrow>
      map fst (new_entries w (snd (fetchBatchData db b w))) = [SelectBatch b]) \<and>
   ((\<exists>resp. fst (get_batch db batchIdParam w) = Inr resp \<and> status resp = 400) \<longleftrightarrow>
      (isNaN (parseInt batchIdParam) \<or> js_less (parseInt batchIdParam) 1))"
proof -
  let ?bid = "parseInt batchIdParam"
  have handler: "(\<exists>resp. fst (get_batch db batchIdParam w) = Inr resp \<and> status resp = 400) \<longleftrightarrow>
      (isNaN ?bid \<or> js_less ?bid 1)"
  proof (cases "isNaN ?bid \<or> js_less ?bid 1")
    case True
    then show ?thesis
      by (simp add: get_batch_def sendErrorResponse_def)
  next
    case False
    obtain r w' where f: "fetchBatchData db ?bid w = (r, w')"
      by (cases "fetchBatchData db ?bid w")
    from False f show ?thesis
      by (cases r)
         (auto simp: get_batch_def sendErrorResponse_def sendSuccessResponse_def Let_def)
  qed
  show ?thesis
    using handler
    by (auto simp: fetchBatchData_cases new_entries_def split: sum.splits)
qed

text \<open>
  The argument 1.5 is not an integer and passes the guard: the query is issued with it. The
  relation rejects the parameter, which surfaces as status 500; a store that accepts it
  makes the call return rows.
\<close>

theorem fetchBatchData_accepts_fraction:
  "\<not> is_integer (Fin (3 / 2)) \<and>
   fst (fetchBatchData pg (Fin (3 / 2)) (empty_store [])) =
     Inl (AppError ''Failed to fetch batch data: invalid input syntax for type integer'' 500) \<and>
   map fst (journal (snd (fetchBatchData pg (Fin (3 / 2)) (empty_store [])))) =
     [SelectBatch (Fin (3 / 2))] \<and>
   fst (fetchBatchData agreeable (Fin (3 / 2)) \<lparr>journal = [], store = ()\<rparr>) = Inr [] \<and>
   map fst (journal (snd (fetchBatchData agreeable (Fin (3 / 2)) \<lparr>journal = [], store = ()\<rparr>))) =
     [SelectBatch (Fin (3 / 2))]"
  by code_simp

theorem fetchBatchData_guard_witness:
  "js_less (Fin 0) 1 \<and>
   fst (fetchBatchData pg (Fin 0) (empty_store [])) =
     Inl (AppError ''Invalid batchId: 0. Must be a positive number.'' 400) \<and>
   snd (fetchBatchData pg (Fin 0) (empty_store [])) = empty_store [] \<and>
   isNaN NaN \<and>
   fst (fetchBatchData pg NaN (empty_store [])) =
     Inl (AppError ''Invalid batchId: NaN. Must be a positive number.'' 400) \<and>
   \<not> (isNaN (Fin 7) \<or> js_less (Fin 7) 1) \<and>
   map fst (new_entries (empty_store []) (snd (fetchBatchData pg (Fin 7) (empty_store [])))) =
     [SelectBatch (Fin 7)] \<and>
   parseInt ''0'' = Fin 0 \<and>
   fst (get_batch pg ''0'' (empty_store [])) =
     Inr (sendErrorResponse ''Invalid batchId: 0. Must be a positive number.'' 400 None) \<and>
   (\<exists>resp. fst (get_batch pg ''0'' (empty_store [])) = Inr resp \<and> status resp = 400)"
proof -
  have a: "js_less (Fin 0) 1" and b: "isNaN NaN" and c: "\<not> (isNaN (Fin 7) \<or> js_less (Fin 7) 1)"
    by simp_all
  have e1: "fst (fetchBatchData pg (Fin 0) (empty_store [])) =
     Inl (AppError ''Invalid batchId: 0. Must be a positive number.'' 400)"
    by code_simp
  have e2: "fst (fetchBatchData pg NaN (empty_store [])) =
     Inl (AppError ''Invalid batchId: NaN. Must be a positive number.'' 400)"
    by code_simp
  have p: "parseInt ''0'' = Fin 0"
    by code_simp
  have h: "fst (get_batch pg ''0'' (empty_store [])) =
     Inr (sendErrorResponse ''Invalid batchId: 0. Must be a positive number.'' 400 None)"
    by code_simp
  from p have all: "isNaN (parseInt ''0'') \<or> js_less (parseInt ''0'') 1" by simp
  note g0 = fetchBatchData_guard [of pg "Fin 0" "empty_store []" "''0''"]
  note g7 = fetchBatchData_guard [of pg "Fin 7" "empty_store []" "''0''"]
  from g0 a have w0: "snd (fetchBatchData pg (Fin 0) (empty_store [])) = empty_store []"
    by blast
  from g7 c have w7: "map fst (new_entries (empty_store []) (snd (fetchBatchData pg (Fin 7) (empty_store [])))) =
     [SelectBatch (Fin 7)]"
    by blast
  from g0 all have r: "\<exists>resp. fst (get_batch pg ''0'' (empty_store [])) = Inr resp \<and> status resp = 400"
    by blast
  from a b c e1 e2 p h w0 w7 r show ?thesis by blast
qed

section \<open>The upload handler\<close>

lemma storeSheetData_Inr_input:
  assumes "fst (storeSheetData db sheetData tableName w) = Inr result"
  shows "\<exists>rows. sheetData = Some (JArr rows) \<and> rows \<noteq> []"
proof (cases sheetData)
  case None
  with assms show ?thesis by simp
next
  case (Some v)
  with assms show ?thesis
    by (cases v) (auto split: if_splits)
qed

lemma upload_sheet_data_stored:
  assumes "fst (storeSheetData db sheetData ''sheet_data'' w) = Inr result"
  shows "fst (upload_sheet_data db sheetData w) =
           Inr (if length (errors result) > 0
                then sendSuccessResponse
                       (Some (JObj [(''batchId'', number_json (batchId' result)),
                                    (''inserted'', JNum (of_nat (inserted result))),
                                    (''errors'', JArr (map RowError_json (errors result)))]))
                       207
                       (Some (''Data stored with '' @ show_nat (length (errors result)) @ '' errors''))
                else sendSuccessResponse
                       (Some (JObj [(''batchId'', number_json (batchId' result)),
                                    (''inserted'', JNum (of_nat (inserted result)))]))
                       200
                       (Some (''Successfully stored '' @ show_nat (inserted result)
                              @ '' rows to database'')))"
proof -
  from storeSheetData_Inr_input [OF assms] obtain rows where
    sd: "sheetData = Some (JArr rows)" and ne: "rows \<noteq> []" by blast
  obtain r w' where run: "storeSheetData db (Some (JArr rows)) ''sheet_data'' w = (r, w')"
    by (cases "storeSheetData db (Some (JArr rows)) ''sheet_data'' w")
  with assms sd have "r = Inr result" by simp
  with run sd ne show ?thesis
    by (simp add: upload_sheet_data_def del: storeSheetData.simps)
qed

lemma upload_sheet_data_not_stored:
  assumes "\<forall>result. fst (storeSheetData db sheetData ''sheet_data'' w) \<noteq> Inr result"
    and "fst (upload_sheet_data db sheetData w) = Inr resp"
  shows "status resp = 400 \<and> member_of (body resp) ''data'' = None"
proof -
  show ?thesis
  proof (cases sheetData)
    case None
    with assms(2) show ?thesis
      by (auto simp: upload_sheet_data_def sendErrorResponse_def createErrorResponse_def)
  next
    case (Some v)
    show ?thesis
    proof (cases "\<exists>rows. v = JArr rows \<and> rows \<noteq> []")
      case True
      then obtain rows where v: "v = JArr rows" and ne: "rows \<noteq> []" by blast
      obtain r w' where run: "storeSheetData db (Some (JArr rows)) ''sheet_data'' w = (r, w')"
        by (cases "storeSheetData db (Some (JArr rows)) ''sheet_data'' w")
      with assms(1) Some v obtain e where "r = Inl e" by (cases r) auto
      with run Some v ne assms(2) show ?thesis
        by (simp add: upload_sheet_data_def del: storeSheetData.simps)
    next
      case False
      with Some assms(2) show ?thesis
        by (cases v)
           (auto simp: upload_sheet_data_def sendErrorResponse_def createErrorResponse_def
                 split: if_splits)
    qed
  qed
qed

text \<open>
  C10. Whenever the upload handler sends a response: with status 200 the \<^verbatim>\<open>data\<close> object has
  the two keys \<^verbatim>\<open>batchId\<close> and \<^verbatim>\<open>inserted\<close> and no other; a \<^verbatim>\<open>data\<close> object with the key
  \<^verbatim>\<open>errors\<close> is sent exactly with status 207; status 207 is sent exactly when
  \<open>storeSheetData\<close> returned a non-empty list of errors, and status 200 exactly when it
  returned an empty one.
\<close>

theorem upload_sheet_data_errors_key:
  assumes "fst (upload_sheet_data db sheetData w) = Inr resp"
  shows "(status resp = 200 \<longrightarrow>
            (\<exists>d. member_of (body resp) ''data'' = Some d \<and> keys_of d = [''batchId'', ''inserted''])) \<and>
         ((\<exists>d. member_of (body resp) ''data'' = Some d \<and> ''errors'' \<in> set (keys_of d)) \<longleftrightarrow>
            status resp = 207) \<and>
         (status resp = 207 \<longleftrightarrow>
            (\<exists>result. fst (storeSheetData db sheetData ''sheet_data'' w) = Inr result \<and>
                      errors result \<noteq> [])) \<and>
         (status resp = 200 \<longleftrightarrow>
            (\<exists>result. fst (storeSheetData db sheetData ''sheet_data'' w) = Inr result \<and>
                      errors result = []))"
proof (cases "\<exists>result. fst (storeSheetData db sheetData ''sheet_data'' w) = Inr result")
  case True
  then obtain result where st: "fst (storeSheetData db sheetData ''sheet_data'' w) = Inr result"
    by blast
  from upload_sheet_data_stored [OF st] assms show ?thesis
    by (cases "errors result")
       (auto simp: st sendSuccessResponse_def createSuccessResponse_def)
next
  case False
  then have "\<forall>result. fst (storeSheetData db sheetData ''sheet_data'' w) \<noteq> Inr result" by simp
  from upload_sheet_data_not_stored [OF this assms] False show ?thesis
    by simp
qed

theorem upload_sheet_data_errors_key_witness:
  "fst (upload_sheet_data pg (Some (JArr three_rows)) (empty_store [])) =
     Inr \<lparr>status = 200,
          body = JObj [(''success'', JBool True),
                       (''message'', JStr ''Successfully stored 3 rows to database''),
                       (''data'', JObj [(''batchId'', JNum 1), (''inserted'', JNum 3)])]\<rparr> \<and>
   fst (upload_sheet_data pg (Some (JArr three_rows))
          (empty_store [False, True, True, False, True, False])) =
     Inr \<lparr>status = 207,
          body = JObj [(''success'', JBool True),
                       (''message'', JStr ''Data stored with 1 errors''),
                       (''data'', JObj [(''batchId'', JNum 1), (''inserted'', JNum 2),
                          (''errors'', JArr [JObj [(''rowIndex'', JNum 1), (''rowNumber'', JNum 2),
                                                   (''rowData'', JObj [(''a'', JNum 2)]),
                                                   (''error'', JStr ''Connection terminated unexpectedly'')]])])]\<rparr> \<and>
   (\<exists>d. member_of (JObj [(''success'', JBool True),
                       (''message'', JStr ''Successfully stored 3 rows to database''),
                       (''data'', JObj [(''batchId'', JNum 1), (''inserted'', JNum 3)])]) ''data'' = Some d \<and>
        keys_of d = [''batchId'', ''inserted''])"
proof -
  let ?r200 = "\<lparr>status = 200,
          body = JObj [(''success'', JBool True),
                       (''message'', JStr ''Successfully stored 3 rows to database''),
                       (''data'', JObj [(''batchId'', JNum 1), (''inserted'', JNum 3)])]\<rparr>"
  have ok: "fst (upload_sheet_data pg (Some (JArr three_rows)) (empty_store [])) = Inr ?r200"
    by code_simp
  have partial: "fst (upload_sheet_data pg (Some (JArr three_rows))
          (empty_store [False, True, True, False, True, False])) =
     Inr \<lparr>status = 207,
          body = JObj [(''success'', JBool True),
                       (''message'', JStr ''Data stored with 1 errors''),
                       (''data'', JObj [(''batchId'', JNum 1), (''inserted'', JNum 2),
                          (''errors'', JArr [JObj [(''rowIndex'', JNum 1), (''rowNumber'', JNum 2),
                                                   (''rowData'', JObj [(''a'', JNum 2)]),
                                                   (''error'', JStr ''Connection terminated unexpectedly'')]])])]\<rparr>"
    by code_simp
  from upload_sheet_data_errors_key [OF ok]
  have "\<exists>d. member_of (body ?r200) ''data'' = Some d \<and> keys_of d = [''batchId'', ''inserted'']"
    by simp
  with ok partial show ?thesis by simp
qed

section \<open>Reading a batch back from the relation\<close>

lemma filter_key_single:
  "distinct (map f xs) \<Longrightarrow> k \<in> set xs \<Longrightarrow> filter (\<lambda>x. f k = f x) xs = [k]"
proof (induction xs)
  case Nil
  then show ?case by simp
next
  case (Cons x xs)
  show ?case
  proof (cases "k = x")
    case True
    with Cons.prems have "\<forall>y \<in> set xs. f x \<noteq> f y" by auto
    then have "filter (\<lambda>y. f x = f y) xs = []" by (simp add: filter_empty_conv)
    with True show ?thesis by simp
  next
    case False
    with Cons.prems have kin: "k \<in> set xs" by simp
    from Cons.prems have "f x \<notin> f ` set xs" by simp
    with kin have "f k \<noteq> f x" by (metis imageI)
    with Cons kin show ?thesis by simp
  qed
qed

lemma sort_key_determined:
  assumes "mset xs = mset ys" and "distinct (map f xs)"
  shows "sort_key f xs = sort_key f ys"
proof -
  have dy: "distinct (map f ys)"
    using assms by (metis mset_eq_imp_distinct_iff mset_map)
  have ds: "distinct (map f (sort_key f xs))"
    using assms(2) by (metis mset_eq_imp_distinct_iff mset_map mset_sort)
  show ?thesis
  proof (rule properties_for_sort_key [symmetric])
    show "mset (sort_key f xs) = mset ys" using assms(1) by simp
    show "sorted (map f (sort_key f xs))" by simp
    fix k assume k: "k \<in> set (sort_key f xs)"
    then have "k \<in> set ys" using assms(1) by (metis mset_eq_setD set_sort)
    with dy have "filter (\<lambda>x. f k = f x) ys = [k]" by (rule filter_key_single)
    moreover from ds k have "filter (\<lambda>x. f k = f x) (sort_key f xs) = [k]"
      by (rule filter_key_single)
    ultimately show "filter (\<lambda>x. f k = f x) (sort_key f xs) = filter (\<lambda>x. f k = f x) ys"
      by simp
  qed
qed

lemma distinct_rowNumber_in_batch:
  assumes "distinct (map unique_batch_row tbl)"
  shows "distinct (map rowNumber (filter (\<lambda>r. batchId r = b) tbl))"
proof -
  let ?ys = "filter (\<lambda>r. batchId r = b) tbl"
  have d: "distinct (map unique_batch_row ?ys)"
    using assms by (rule distinct_map_filter)
  have "map unique_batch_row ?ys = map (\<lambda>r. (b, rowNumber r)) ?ys"
    by (simp add: unique_batch_row_def)
  also have "\<dots> = map (Pair b) (map rowNumber ?ys)" by simp
  finally have "distinct (map (Pair b) (map rowNumber ?ys))" using d by (simp only:)
  then show ?thesis by (rule distinct_map [THEN iffD1, THEN conjunct1])
qed

lemma fetchBatchData_pg:
  assumes "1 \<le> b" and "int4 b" and "\<not> connection_lost (store w)"
  shows "fst (fetchBatchData pg (Fin (of_int b)) w) =
           Inr (sort_key rowNumber (filter (\<lambda>r. batchId r = b) (sheet_data (store w))))"
proof -
  have "\<not> js_less (Fin (of_int b)) 1" using assms(1) by simp
  then show ?thesis
    using assms(2,3)
    by (simp add: fetchBatchData_cases pg_def pg_select_batch_def)
qed

text \<open>
  C8. For a batch id that is a positive integer of the column's type, and when the connection
  is not lost, \<open>fetchBatchData\<close> on the relation returns exactly the rows whose \<open>batchId\<close> is the
  argument, each as often as the relation holds it, in ascending order of \<open>rowNumber\<close>. The
  order of arrival in the relation and the serial ids play no part: a relation that holds the
  same rows in any other order, under the uniqueness constraint, gives the same list.
\<close>

theorem fetchBatchData_rows_by_rowNumber:
  assumes "1 \<le> b" and "int4 b" and "\<not> connection_lost (store w)"
  shows "\<exists>rows. fst (fetchBatchData pg (Fin (of_int b)) w) = Inr rows \<and>
           mset rows = filter_mset (\<lambda>r. batchId r = b) (mset (sheet_data (store w))) \<and>
           sorted (map rowNumber rows) \<and>
           (\<forall>w2. \<not> connection_lost (store w2) \<longrightarrow>
                 mset (sheet_data (store w2)) = mset (sheet_data (store w)) \<longrightarrow>
                 distinct (map unique_batch_row (sheet_data (store w))) \<longrightarrow>
                 fst (fetchBatchData pg (Fin (of_int b)) w2) = Inr rows)"
proof -
  let ?sel = "\<lambda>tbl. filter (\<lambda>r. batchId r = b) tbl"
  let ?rows = "sort_key rowNumber (?sel (sheet_data (store w)))"
  have r: "fst (fetchBatchData pg (Fin (of_int b)) w) = Inr ?rows"
    using assms by (rule fetchBatchData_pg)
  have m: "mset ?rows = filter_mset (\<lambda>r. batchId r = b) (mset (sheet_data (store w)))"
    by simp
  have s: "sorted (map rowNumber ?rows)" by simp
  have "fst (fetchBatchData pg (Fin (of_int b)) w2) = Inr ?rows"
    if ok: "\<not> connection_lost (store w2)"
      and same: "mset (sheet_data (store w2)) = mset (sheet_data (store w))"
      and uniq: "distinct (map unique_batch_row (sheet_data (store w)))" for w2
  proof -
    have "mset (?sel (sheet_data (store w))) = mset (?sel (sheet_data (store w2)))"
      using same by simp
    moreover have "distinct (map rowNumber (?sel (sheet_data (store w))))"
      using uniq by (rule distinct_rowNumber_in_batch)
    ultimately have "?rows = sort_key rowNumber (?sel (sheet_data (store w2)))"
      by (rule sort_key_determined)
    with fetchBatchData_pg [OF assms(1,2) ok] show ?thesis by simp
  qed
  with r m s show ?thesis by blast
qed

theorem fetchBatchData_rows_by_rowNumber_witness:
  "(1::int) \<le> 1 \<and> int4 1 \<and> \<not> connection_lost (store (relation_of out_of_order)) \<and>
   fst (fetchBatchData pg (Fin (of_int 1)) (relation_of out_of_order)) =
     Inr [\<lparr>batchId = 1, rowNumber = 1, data = JStr ''first'', id' = 3, createdAt = 2\<rparr>,
          \<lparr>batchId = 1, rowNumber = 2, data = JStr ''second'', id' = 1, createdAt = 0\<rparr>] \<and>
   mset (sheet_data (store (relation_of (rev out_of_order)))) =
     mset (sheet_data (store (relation_of out_of_order))) \<and>
   distinct (map unique_batch_row (sheet_data (store (relation_of out_of_order)))) \<and>
   fst (fetchBatchData pg (Fin (of_int 1)) (relation_of (rev out_of_order))) =
     Inr [\<lparr>batchId = 1, rowNumber = 1, data = JStr ''first'', id' = 3, createdAt = 2\<rparr>,
          \<lparr>batchId = 1, rowNumber = 2, data = JStr ''second'', id' = 1, createdAt = 0\<rparr>]"
proof -
  let ?w = "relation_of out_of_order" and ?w2 = "relation_of (rev out_of_order)"
  have h1: "(1::int) \<le> 1" by simp
  have h2: "int4 1" by (simp add: int4_def)
  have h3: "\<not> connection_lost (store ?w)"
    by (simp add: relation_of_def connection_lost_def)
  have h4: "\<not> connection_lost (store ?w2)"
    by (simp add: relation_of_def connection_lost_def)
  have same: "mset (sheet_data (store ?w2)) = mset (sheet_data (store ?w))"
    by (simp add: relation_of_def)
  have uniq: "distinct (map unique_batch_row (sheet_data (store ?w)))"
    by (simp add: relation_of_def out_of_order_def unique_batch_row_def)
  have run: "fst (fetchBatchData pg (Fin (of_int 1)) ?w) =
     Inr [\<lparr>batchId = 1, rowNumber = 1, data = JStr ''first'', id' = 3, createdAt = 2\<rparr>,
          \<lparr>batchId = 1, rowNumber = 2, data = JStr ''second'', id' = 1, createdAt = 0\<rparr>]"
    by code_simp
  from fetchBatchData_rows_by_rowNumber [OF h1 h2 h3] obtain rows where
    R: "fst (fetchBatchData pg (Fin (of_int 1)) ?w) = Inr rows"
       "\<forall>w2. \<not> connection_lost (store w2) \<longrightarrow>
             mset (sheet_data (store w2)) = mset (sheet_data (store ?w)) \<longrightarrow>
             distinct (map unique_batch_row (sheet_data (store ?w))) \<longrightarrow>
             fst (fetchBatchData pg (Fin (of_int 1)) w2) = Inr rows"
    by blast
  from R(2) h4 same uniq have "fst (fetchBatchData pg (Fin (of_int 1)) ?w2) = Inr rows"
    by blast
  with R(1) run h1 h2 h3 same uniq show ?thesis
    by simp
qed

lemma unique_batch_row_stored:
  "map unique_batch_row (stored n t rows) = map unique_batch_row rows"
  by (rule nth_equalityI)
     (simp_all add: stored_def unique_batch_row_def nth_enumerate_eq split_def)

lemma pg_insert_keeps_unique:
  assumes "distinct (map unique_batch_row (sheet_data s))"
  shows "distinct (map unique_batch_row (sheet_data (snd (pg_insert s rows))))"
  using assms
  by (auto simp: pg_insert_def statement_done_def unique_batch_row_stored)

section \<open>Allocation after an upload\<close>

lemma sql_max_Max:
  assumes "xs \<noteq> []"
  shows "sql_max xs = Some (Max (set xs))"
proof (cases xs)
  case Nil
  with assms show ?thesis by simp
next
  case (Cons x ys)
  have "Max (set (x # ys)) = fold max ys x" by (rule Max.set_eq_fold)
  with Cons show ?thesis by (simp only: sql_max.simps)
qed

lemma next_batch_id_of_unchanged_or_next:
  assumes "\<forall>r \<in> set X. batchId r = next_batch_id_of tbl"
  shows "next_batch_id_of (tbl @ X) =
           (if X = [] then next_batch_id_of tbl else next_batch_id_of tbl + 1)"
proof (cases "X = []")
  case True
  then show ?thesis by simp
next
  case False
  let ?b = "next_batch_id_of tbl"
  have X: "set (map batchId X) = {?b}"
    using assms False by (cases X) auto
  have "Max (set (map batchId (tbl @ X))) = ?b"
  proof (cases "tbl = []")
    case True
    with X show ?thesis by simp
  next
    case nonempty: False
    then have b: "?b = Max (set (map batchId tbl)) + 1"
      by (simp add: next_batch_id_of_def sql_max_Max)
    have "Max (set (map batchId tbl) \<union> {?b}) = max (Max (set (map batchId tbl))) (Max {?b})"
      using nonempty by (intro Max_Un) simp_all
    with b X show ?thesis by (simp add: Un_commute)
  qed
  with False show ?thesis
    by (simp add: next_batch_id_of_def [of "tbl @ X"] sql_max_Max)
qed

lemma parseInt_show_int4: "int4 n \<Longrightarrow> parseInt (show_int n) = Fin (of_int n)"
proof (rule parseInt_show_int)
  assume "int4 n"
  then have "\<bar>n\<bar> \<le> 2147483648" unfolding int4_def by arith
  also have "(2147483648 :: int) < 2 ^ 53" by simp
  finally show "\<bar>n\<bar> < 2 ^ 53" .
qed

lemma getNextBatchId_pg:
  assumes "fst (getNextBatchId pg tableName w) = Inr b"
  shows "b = Fin (of_int (next_batch_id_of (sheet_data (store w))))"
    and "sheet_data (store (snd (getNextBatchId pg tableName w))) = sheet_data (store w)"
  using assms
  by (auto simp: getNextBatchId_def run_next_batch_id_query_def pg_def pg_next_batch_id_def
                 statement_done_def Let_def parseInt_show_int4
           split: if_splits)

lemma pg_insert_table:
  "pg_insert s rows = (out, s') \<Longrightarrow>
   sheet_data s' =
     sheet_data s @ (if out = None then stored (next_serial s) (clock s) (typed rows) else [])"
  by (auto simp: pg_insert_def statement_done_def split: if_splits)

lemma stored_batchId:
  "r \<in> set (stored n t rows) \<Longrightarrow> batchId r \<in> batchId ` set rows"
  by (auto simp: stored_def enumerate_eq_zip dest: set_zip_rightD)

lemma length_stored [simp]: "length (stored n t rows) = length rows"
  by (simp add: stored_def)

lemma length_typed [simp]: "length (typed rows) = length rows"
  by (simp add: typed_def)

lemma batchId_typed: "r \<in> set (typed rows) \<Longrightarrow> batchId r \<in> column_value ` batchId ` set rows"
  by (auto simp: typed_def)

lemma faithful_pg_inserts:
  assumes "faithful pg s J s'"
    and "\<forall>entry \<in> set J. \<exists>rows. stmt_rows (fst entry) = Some rows \<and> (\<forall>r \<in> set rows. batchId r = b)"
  shows "\<exists>X. sheet_data s' = sheet_data s @ X \<and> (\<forall>r \<in> set X. batchId r = column_value b) \<and>
              length X = credited J"
  using assms
proof (induction J arbitrary: s)
  case Nil
  then show ?case by simp
next
  case (Cons entry J)
  obtain st out where entry: "entry = (st, out)" by (cases entry)
  from Cons.prems(2) entry obtain rows where
    rows: "stmt_rows st = Some rows" "\<forall>r \<in> set rows. batchId r = b" by auto
  obtain s1 where ins: "pg_insert s rows = (out, s1)" and rest: "faithful pg s1 J s'"
    and cr: "credited_entry entry = (if out = None then length rows else 0)"
  proof (cases st)
    case (InsertValues rs)
    with rows Cons.prems(1) entry that show ?thesis
      by (cases "pg_insert s rows"; cases out) (auto simp: pg_def)
  next
    case (InsertValue row)
    with rows Cons.prems(1) entry that show ?thesis
      by (cases "pg_insert s rows"; cases out) (auto simp: pg_def)
  next
    case (QueryNextBatchId t)
    with rows show ?thesis by simp
  next
    case (SelectBatch q)
    with rows show ?thesis by simp
  qed
  from Cons.IH [OF rest] Cons.prems(2) obtain X where
    X: "sheet_data s' = sheet_data s1 @ X" "\<forall>r \<in> set X. batchId r = column_value b"
       "length X = credited J"
    by auto
  let ?Y = "if out = None then stored (next_serial s) (clock s) (typed rows) else []"
  have Y: "sheet_data s1 = sheet_data s @ ?Y" using ins by (rule pg_insert_table)
  have Yb: "\<forall>r \<in> set ?Y. batchId r = column_value b"
    using rows(2) by (auto dest!: stored_batchId batchId_typed)
  show ?case
    using X Y Yb cr by (intro exI [of _ "?Y @ X"]) auto
qed

lemma chunks_of_subset:
  "ch \<in> set (chunks_of c xs) \<Longrightarrow> set ch \<subseteq> set xs"
proof (induction c xs rule: chunks_of.induct)
  case (1 c xs)
  from "1.prems" have "\<not> (c = 0 \<or> xs = [])" and "ch = take c xs \<or> ch \<in> set (chunks_of c (drop c xs))"
    by (subst (asm) chunks_of.simps, simp split: if_splits)+
  with "1.IH" show ?case
    by (auto dest: in_set_takeD in_set_dropD)
qed

lemma chunk_script_rows:
  assumes "chunk_script (chunks_of c D) J" and "entry \<in> set J"
  shows "\<exists>rows. stmt_rows (fst entry) = Some rows \<and> set rows \<subseteq> set D"
proof -
  from chunk_script_stmts [OF assms] obtain ch where
    ch: "ch \<in> set (chunks_of c D)"
        "fst entry = InsertValues ch \<or> (\<exists>r \<in> set ch. fst entry = InsertValue r)"
    by blast
  from ch(1) have "set ch \<subseteq> set D" by (rule chunks_of_subset)
  with ch(2) show ?thesis by auto
qed

lemma batchId_tag_rows: "r \<in> set (tag_rows bid rows) \<Longrightarrow> batchId r = bid"
  by (auto simp: tag_rows_def)

text \<open>
  C5, as the code has it. On the relation, the batch id of an upload is
  \<^verbatim>\<open>COALESCE(MAX(batch_id), 0) + 1\<close> over the rows present when it starts. The allocation that
  follows an upload, with nothing in between, returns that batch id plus one when the upload
  inserted at least one row, and the very same batch id again when it inserted none.
\<close>

theorem next_allocation_after_upload:
  assumes "storeSheetData pg (Some (JArr rows)) tableName w = (Inr result, w')"
    and "fst (getNextBatchId pg tableName w') = Inr b'"
  shows "batchId' result = Fin (of_int (next_batch_id_of (sheet_data (store w)))) \<and>
         (0 < inserted result \<longrightarrow>
            b' = Fin (of_int (next_batch_id_of (sheet_data (store w)) + 1))) \<and>
         (inserted result = 0 \<longrightarrow> b' = batchId' result)"
proof -
  have ne: "rows \<noteq> []"
  proof
    assume "rows = []"
    with assms(1) show False by simp
  qed
  obtain r1 w1 where a1: "getNextBatchId pg tableName w = (r1, w1)"
    by (cases "getNextBatchId pg tableName w")
  have "\<exists>b. r1 = Inr b"
  proof (cases r1)
    case (Inl e)
    with assms(1) ne a1 show ?thesis by simp
  next
    case (Inr b)
    then show ?thesis by simp
  qed
  then obtain b where alloc: "getNextBatchId pg tableName w = (Inr b, w1)"
    using a1 by blast
  let ?D = "tag_rows b rows"
  from storeSheetData_run [OF ne alloc assms(1)] obtain J n errs where
    R0: "Inr result = (Inr \<lparr>success = True, batchId' = b, inserted = n, errors = errs\<rparr>
                        :: thrown + StoreSheetDataResult)"
        "n = credited J"
    and R: "faithful pg (store w1) J (store w')"
       "if length rows > 10000 then chunk_script (chunks_of CHUNK_SIZE ?D) J
        else \<exists>out J'. J = (InsertValues ?D, out) # J' \<and>
               (case out of None \<Rightarrow> J' = [] | Some e \<Rightarrow> chunk_script (chunks_of CHUNK_SIZE ?D) J')"
    by blast
  from R0 have res: "inserted result = credited J" "batchId' result = b"
    by simp_all
  let ?nb = "next_batch_id_of (sheet_data (store w))"
  have b: "b = Fin (of_int ?nb)"
    and t1: "sheet_data (store w1) = sheet_data (store w)"
    using getNextBatchId_pg [of tableName w b] alloc by simp_all
  have cv: "column_value b = ?nb" by (simp add: b)
  have all: "\<exists>rs. stmt_rows (fst entry) = Some rs \<and> (\<forall>r \<in> set rs. batchId r = b)"
    if mem: "entry \<in> set J" for entry
  proof -
    have "\<exists>rs. stmt_rows (fst entry) = Some rs \<and> set rs \<subseteq> set ?D"
    proof (cases "length rows > 10000")
      case True
      with R(2) have "chunk_script (chunks_of CHUNK_SIZE ?D) J" by simp
      from chunk_script_rows [OF this mem] show ?thesis .
    next
      case False
      with R(2) obtain out J' where J: "J = (InsertValues ?D, out) # J'"
        and c: "case out of None \<Rightarrow> J' = [] | Some e \<Rightarrow> chunk_script (chunks_of CHUNK_SIZE ?D) J'"
        by auto
      show ?thesis
      proof (cases "entry = (InsertValues ?D, out)")
        case True
        then show ?thesis by simp
      next
        case False
        with mem J have inJ': "entry \<in> set J'" by simp
        show ?thesis
        proof (cases out)
          case None
          with c inJ' show ?thesis by simp
        next
          case (Some e)
          with c have "chunk_script (chunks_of CHUNK_SIZE ?D) J'" by simp
          from chunk_script_rows [OF this inJ'] show ?thesis .
        qed
      qed
    qed
    then obtain rs where "stmt_rows (fst entry) = Some rs" "set rs \<subseteq> set ?D" by blast
    then show ?thesis using batchId_tag_rows [of _ b rows] by blast
  qed
  then have "\<forall>entry \<in> set J. \<exists>rs. stmt_rows (fst entry) = Some rs \<and> (\<forall>r \<in> set rs. batchId r = b)"
    by blast
  from faithful_pg_inserts [OF R(1) this] obtain X where
    X: "sheet_data (store w') = sheet_data (store w1) @ X"
       "\<forall>r \<in> set X. batchId r = column_value b" "length X = credited J"
    by blast
  have b': "b' = Fin (of_int (next_batch_id_of (sheet_data (store w'))))"
    using getNextBatchId_pg(1) [OF assms(2)] .
  have "next_batch_id_of (sheet_data (store w) @ X) = (if X = [] then ?nb else ?nb + 1)"
    using next_batch_id_of_unchanged_or_next [of X "sheet_data (store w)"] X(2) cv by simp
  with b' X(1) t1 have "b' = (if X = [] then b else Fin (of_int (?nb + 1)))"
    by (simp add: b)
  moreover have "inserted result = length X"
    using res(1) X(3) by simp
  ultimately show ?thesis using b res(2) by auto
qed

text \<open>
  An upload to the empty relation whose every insert is lost gets batch id 1 and leaves no
  row; the allocation after it returns 1 again, and the next upload is batch 1 as well.
\<close>

theorem batch_id_reused_after_failed_upload:
  "fst (storeSheetData pg (Some (JArr three_rows)) ''sheet_data''
          (empty_store [False, True, True, True, True, True])) =
     Inr \<lparr>success = True, batchId' = Fin 1, inserted = 0,
          errors = [\<lparr>rowIndex = 0, rowNumber' = 1, rowData = Some (JObj [(''a'', JNum 1)]),
                     error = ''Connection terminated unexpectedly''\<rparr>,
                    \<lparr>rowIndex = 1, rowNumber' = 2, rowData = Some (JObj [(''a'', JNum 2)]),
                     error = ''Connection terminated unexpectedly''\<rparr>,
                    \<lparr>rowIndex = 2, rowNumber' = 3, rowData = Some (JObj [(''a'', JNum 3)]),
                     error = ''Connection terminated unexpectedly''\<rparr>]\<rparr> \<and>
   fst (getNextBatchId pg ''sheet_data''
          (snd (storeSheetData pg (Some (JArr three_rows)) ''sheet_data''
                  (empty_store [False, True, True, True, True, True])))) = Inr (Fin 1) \<and>
   fst (storeSheetData pg (Some (JArr three_rows)) ''sheet_data''
          (snd (storeSheetData pg (Some (JArr three_rows)) ''sheet_data''
                  (empty_store [False, True, True, True, True, True])))) =
     Inr \<lparr>success = True, batchId' = Fin 1, inserted = 3, errors = []\<rparr>"
  by code_simp

theorem next_allocation_after_upload_witness:
  "fst (storeSheetData pg (Some (JArr three_rows)) ''sheet_data'' (empty_store [])) =
     Inr \<lparr>success = True, batchId' = Fin 1, inserted = 3, errors = []\<rparr> \<and>
   fst (getNextBatchId pg ''sheet_data''
          (snd (storeSheetData pg (Some (JArr three_rows)) ''sheet_data'' (empty_store [])))) = Inr (Fin 2) \<and>
   next_batch_id_of (sheet_data (store (empty_store []))) = 1 \<and>
   map_sum id inserted
     (fst (storeSheetData pg (Some (JArr three_rows)) ''sheet_data''
             (empty_store [False, True, True, True, True, True]))) = Inr 0 \<and>
   map_sum id batchId'
     (fst (storeSheetData pg (Some (JArr three_rows)) ''sheet_data''
             (empty_store [False, True, True, True, True, True]))) = Inr (Fin 1) \<and>
   fst (getNextBatchId pg ''sheet_data''
          (snd (storeSheetData pg (Some (JArr three_rows)) ''sheet_data''
                  (empty_store [False, True, True, True, True, True])))) = Inr (Fin 1)"
proof -
  let ?w = "empty_store []"
  let ?run = "storeSheetData pg (Some (JArr three_rows)) ''sheet_data'' ?w"
  let ?result = "\<lparr>success = True, batchId' = Fin 1, inserted = 3, errors = []\<rparr>"
  have r: "fst ?run = Inr ?result"
    by code_simp
  then have run: "?run = (Inr ?result, snd ?run)"
    by (metis prod.collapse)
  have a: "fst (getNextBatchId pg ''sheet_data'' (snd ?run)) = Inr (Fin 2)"
    by code_simp
  from next_allocation_after_upload [OF run a]
  have "batchId' ?result = Fin (of_int (next_batch_id_of (sheet_data (store ?w))))" by blast
  then have n: "next_batch_id_of (sheet_data (store ?w)) = 1" by simp
  let ?lost = "storeSheetData pg (Some (JArr three_rows)) ''sheet_data''
                 (empty_store [False, True, True, True, True, True])"
  have e0: "map_sum id inserted (fst ?lost) = Inr 0"
    by code_simp
  have e1: "map_sum id batchId' (fst ?lost) = Inr (Fin 1)"
    by code_simp
  from e0 obtain failed where f: "fst ?lost = Inr failed"
    by (cases "fst ?lost") simp_all
  with e0 e1 have f0: "inserted failed = 0" and f1: "batchId' failed = Fin 1"
    by simp_all
  from f have lost: "?lost = (Inr failed, snd ?lost)"
    by (metis prod.collapse)
  obtain again where g: "fst (getNextBatchId pg ''sheet_data'' (snd ?lost)) = Inr again"
  proof -
    have "fst (getNextBatchId pg ''sheet_data'' (snd ?lost)) = Inr (Fin 1)"
      by code_simp
    with that show ?thesis by blast
  qed
  from next_allocation_after_upload [OF lost g] f0 f1 have "again = Fin 1" by simp
  with g r a n e0 e1 show ?thesis by simp
qed

end
